theory Spec2Isabelle
  imports Main
begin

section \<open>The complaint store: tables, row-level policies and triggers\<close>

text \<open>
  The two migrations declare five tables, their row-level security (RLS) policies and
  three triggers on \<open>complaints\<close>. The model follows the schema as it stands after both
  migrations. A table is the list of its rows, a statement issued through the API is a
  function from the database and the caller (\<open>auth.uid()\<close>) to either an error or the
  new database, and the triggers of a statement run inside that function, so a failing
  trigger fails the whole statement and nothing of it is kept.

  Values drawn by the database itself (\<open>gen_random_uuid()\<close>, \<open>NOW()\<close>) are parameters
  of the statement. A \<open>uuid\<close> and a timestamp are natural numbers.
\<close>

type_synonym uuid = nat
type_synonym timestamptz = nat

datatype app_role = student | staff | admin

datatype complaint_category = hostel | academic | food | infrastructure | other

datatype complaint_severity = low | medium | high

datatype complaint_status = submitted | in_progress | resolved

record complaint =
  c_id :: uuid
  student_id :: uuid
  category :: complaint_category
  severity :: complaint_severity
  title :: string
  description :: string
  is_anonymous :: bool
  status :: complaint_status
  staff_assigned :: "uuid option"
  rating :: "int option"
  created_at :: timestamptz
  resolved_at :: "timestamptz option"
  withdrawn_at :: "timestamptz option"
  withdrawal_reason :: "string option"

record timeline_row =
  t_id :: uuid
  complaint_id :: uuid
  updated_by :: "uuid option"
  message :: string
  t_created_at :: timestamptz

record identity_locker =
  l_complaint_id :: uuid
  real_student_id :: uuid
  reveal_status :: string
  reveal_reason :: "string option"
  reveal_requested_by :: "uuid option"
  revealed_at :: "timestamptz option"

record user_role =
  r_id :: uuid
  user_id :: uuid
  role :: app_role

text \<open>
  Of a row of \<open>profiles\<close> only the primary key is kept: the other columns (name, email,
  phone, hostel) take part in no policy, trigger or constraint of the other tables.
\<close>

record db =
  profiles :: "uuid list"
  user_roles :: "user_role list"
  complaints :: "complaint list"
  complaint_timeline :: "timeline_row list"
  identity_lockers :: "identity_locker list"

text \<open>
  The failures of a statement: the exception raised by the limit trigger, a row refused
  by a \<open>WITH CHECK\<close> policy, the three kinds of constraint violation, a statement that
  names a column its table does not have, and the empty answer of a read.
\<close>

datatype error =
    LimitExceeded
  | Unauthorized
  | UniqueViolation
  | ForeignKeyViolation
  | CheckViolation
  | UndefinedColumn
  | NotFound

subsection \<open>Role lookup\<close>

definition has_role :: "db \<Rightarrow> uuid \<Rightarrow> app_role \<Rightarrow> bool" where
  "has_role d uid rl = (\<exists>r \<in> set (user_roles d). user_id r = uid \<and> role r = rl)"

subsection \<open>Policies on complaints\<close>

definition students_can_view_own :: "uuid \<Rightarrow> complaint \<Rightarrow> bool" where
  "students_can_view_own uid c = (uid = student_id c)"

definition students_can_create :: "uuid \<Rightarrow> complaint \<Rightarrow> bool" where
  "students_can_create uid c = (uid = student_id c)"

definition students_can_update_own :: "uuid \<Rightarrow> complaint \<Rightarrow> bool" where
  "students_can_update_own uid c = (uid = student_id c)"

definition staff_can_view_assigned :: "db \<Rightarrow> uuid \<Rightarrow> complaint \<Rightarrow> bool" where
  "staff_can_view_assigned d uid c = (has_role d uid staff \<and> staff_assigned c = Some uid)"

definition staff_can_update_assigned :: "db \<Rightarrow> uuid \<Rightarrow> complaint \<Rightarrow> bool" where
  "staff_can_update_assigned d uid c = (has_role d uid staff \<and> staff_assigned c = Some uid)"

definition admin_can_view_all :: "db \<Rightarrow> uuid \<Rightarrow> bool" where
  "admin_can_view_all d uid = has_role d uid admin"

definition admin_can_update_all :: "db \<Rightarrow> uuid \<Rightarrow> bool" where
  "admin_can_update_all d uid = has_role d uid admin"

text \<open>Permissive policies of one command are combined with OR.\<close>

definition complaints_select_policy :: "db \<Rightarrow> uuid \<Rightarrow> complaint \<Rightarrow> bool" where
  "complaints_select_policy d uid c =
     (students_can_view_own uid c \<or> staff_can_view_assigned d uid c \<or> admin_can_view_all d uid)"

definition complaints_insert_check :: "db \<Rightarrow> uuid \<Rightarrow> complaint \<Rightarrow> bool" where
  "complaints_insert_check d uid c = students_can_create uid c"

text \<open>
  The student policy for \<open>UPDATE\<close> has no \<open>WITH CHECK\<close>, so its \<open>USING\<close> expression is
  also the check of the new row; the staff and admin policies repeat theirs.
\<close>

definition complaints_update_using :: "db \<Rightarrow> uuid \<Rightarrow> complaint \<Rightarrow> bool" where
  "complaints_update_using d uid c =
     (students_can_update_own uid c \<or> staff_can_update_assigned d uid c \<or> admin_can_update_all d uid)"

definition complaints_update_check :: "db \<Rightarrow> uuid \<Rightarrow> complaint \<Rightarrow> bool" where
  "complaints_update_check d uid c =
     (students_can_update_own uid c \<or> staff_can_update_assigned d uid c \<or> admin_can_update_all d uid)"

subsection \<open>Reading complaints\<close>

definition select_complaints :: "db \<Rightarrow> uuid \<Rightarrow> complaint list" where
  "select_complaints d uid = filter (complaints_select_policy d uid) (complaints d)"

text \<open>
  A read by identifier: the rows the policies let through, restricted to the identifier.
  No row is the answer \<open>NotFound\<close>.
\<close>

definition read_complaint :: "db \<Rightarrow> uuid \<Rightarrow> uuid \<Rightarrow> error + complaint" where
  "read_complaint d uid cid =
     (case filter (\<lambda>c. c_id c = cid) (select_complaints d uid) of
        [] \<Rightarrow> Inl NotFound
      | c # _ \<Rightarrow> Inr c)"

subsection \<open>Policies on the timeline\<close>

text \<open>The sub-select on \<open>complaints\<close> inside a policy is itself filtered by the caller's
  policies on \<open>complaints\<close>.\<close>

definition users_can_view_timeline :: "db \<Rightarrow> uuid \<Rightarrow> timeline_row \<Rightarrow> bool" where
  "users_can_view_timeline d uid e =
     (complaint_id e \<in> set (map c_id (filter (\<lambda>c. student_id c = uid) (select_complaints d uid))))"

definition staff_can_view_timeline :: "db \<Rightarrow> uuid \<Rightarrow> timeline_row \<Rightarrow> bool" where
  "staff_can_view_timeline d uid e =
     (has_role d uid staff \<and>
      complaint_id e \<in> set (map c_id (filter (\<lambda>c. staff_assigned c = Some uid) (select_complaints d uid))))"

definition admin_can_view_timelines :: "db \<Rightarrow> uuid \<Rightarrow> bool" where
  "admin_can_view_timelines d uid = has_role d uid admin"

definition timeline_select_policy :: "db \<Rightarrow> uuid \<Rightarrow> timeline_row \<Rightarrow> bool" where
  "timeline_select_policy d uid e =
     (users_can_view_timeline d uid e \<or> staff_can_view_timeline d uid e \<or> admin_can_view_timelines d uid)"

definition select_timeline :: "db \<Rightarrow> uuid \<Rightarrow> timeline_row list" where
  "select_timeline d uid = filter (timeline_select_policy d uid) (complaint_timeline d)"

subsection \<open>Constraints of the tables\<close>

definition rating_check :: "complaint \<Rightarrow> bool" where
  "rating_check c = (case rating c of None \<Rightarrow> True | Some r \<Rightarrow> 1 \<le> r \<and> r \<le> 5)"

definition opt_ref :: "uuid option \<Rightarrow> uuid list \<Rightarrow> bool" where
  "opt_ref k ks = (case k of None \<Rightarrow> True | Some x \<Rightarrow> x \<in> set ks)"

definition complaint_fk :: "db \<Rightarrow> complaint \<Rightarrow> bool" where
  "complaint_fk d c = (student_id c \<in> set (profiles d) \<and> opt_ref (staff_assigned c) (profiles d))"

definition timeline_fk :: "db \<Rightarrow> timeline_row \<Rightarrow> bool" where
  "timeline_fk d e =
     (complaint_id e \<in> set (map c_id (complaints d)) \<and> opt_ref (updated_by e) (profiles d))"

definition locker_fk :: "db \<Rightarrow> identity_locker \<Rightarrow> bool" where
  "locker_fk d l =
     (l_complaint_id l \<in> set (map c_id (complaints d)) \<and> real_student_id l \<in> set (profiles d) \<and>
      opt_ref (reveal_requested_by l) (profiles d))"

definition complaint_referenced :: "db \<Rightarrow> uuid \<Rightarrow> bool" where
  "complaint_referenced d cid =
     (cid \<in> set (map complaint_id (complaint_timeline d)) \<or>
      cid \<in> set (map l_complaint_id (identity_lockers d)))"

subsection \<open>The triggers on complaints\<close>

definition active_count :: "db \<Rightarrow> uuid \<Rightarrow> nat" where
  "active_count d sid =
     length (filter (\<lambda>c. student_id c = sid \<and> status c \<noteq> resolved \<and> withdrawn_at c = None)
               (complaints d))"

definition check_active_complaint_limit :: "db \<Rightarrow> complaint \<Rightarrow> error + complaint" where
  "check_active_complaint_limit d NEW =
     (if active_count d (student_id NEW) \<ge> 3 then Inl LimitExceeded else Inr NEW)"

text \<open>The timeline row gets its key and its time from the defaults of the table.\<close>

definition add_complaint_timeline :: "uuid \<Rightarrow> timestamptz \<Rightarrow> db \<Rightarrow> complaint \<Rightarrow> error + db" where
  "add_complaint_timeline tid now d NEW =
     (let e = \<lparr>t_id = tid, complaint_id = c_id NEW, updated_by = Some (student_id NEW),
               message = ''Complaint submitted'', t_created_at = now\<rparr>
      in if tid \<in> set (map t_id (complaint_timeline d)) then Inl UniqueViolation
         else if \<not> timeline_fk d e then Inl ForeignKeyViolation
         else Inr (d\<lparr>complaint_timeline := complaint_timeline d @ [e]\<rparr>))"

text \<open>\<open>ON CONFLICT (complaint_id) DO NOTHING\<close>: a row with the same key leaves the table
  as it is and raises nothing.\<close>

definition create_identity_locker :: "db \<Rightarrow> complaint \<Rightarrow> error + db" where
  "create_identity_locker d NEW =
     (if is_anonymous NEW then
        (let l = \<lparr>l_complaint_id = c_id NEW, real_student_id = student_id NEW,
                  reveal_status = ''not_revealed'', reveal_reason = None,
                  reveal_requested_by = None, revealed_at = None\<rparr>
         in if c_id NEW \<in> set (map l_complaint_id (identity_lockers d)) then Inr d
            else if \<not> locker_fk d l then Inl ForeignKeyViolation
            else Inr (d\<lparr>identity_lockers := identity_lockers d @ [l]\<rparr>))
      else Inr d)"

text \<open>The trigger \<open>on_anonymous_complaint\<close> with its \<open>WHEN\<close> clause.\<close>

definition on_anonymous_complaint :: "db \<Rightarrow> complaint \<Rightarrow> error + db" where
  "on_anonymous_complaint d NEW =
     (if is_anonymous NEW = True then create_identity_locker d NEW else Inr d)"

subsection \<open>Statements on complaints\<close>

text \<open>
  \<open>INSERT INTO complaints\<close> by caller \<open>uid\<close>: the \<open>BEFORE INSERT\<close> trigger, the
  \<open>WITH CHECK\<close> policy, the constraints of the table, then the row is stored and the
  two \<open>AFTER INSERT\<close> triggers fire in the order of their names.
\<close>

definition insert_complaint :: "db \<Rightarrow> uuid \<Rightarrow> uuid \<Rightarrow> timestamptz \<Rightarrow> complaint \<Rightarrow> error + db" where
  "insert_complaint d uid tid now NEW0 =
     (case check_active_complaint_limit d NEW0 of
        Inl e \<Rightarrow> Inl e
      | Inr NEW \<Rightarrow>
          if \<not> complaints_insert_check d uid NEW then Inl Unauthorized
          else if \<not> rating_check NEW then Inl CheckViolation
          else if c_id NEW \<in> set (map c_id (complaints d)) then Inl UniqueViolation
          else if \<not> complaint_fk d NEW then Inl ForeignKeyViolation
          else
            (case on_anonymous_complaint (d\<lparr>complaints := complaints d @ [NEW]\<rparr>) NEW of
               Inl e \<Rightarrow> Inl e
             | Inr d2 \<Rightarrow> add_complaint_timeline tid now d2 NEW))"

text \<open>
  \<open>UPDATE complaints SET ... WHERE id = cid\<close> by caller \<open>uid\<close>, writing the row
  \<open>NEW\<close>. A row the policies hide is not updated and the statement succeeds on no
  row; a new row that fails the check is an error. The key may be rewritten only when
  no timeline row or locker refers to the old one (\<open>ON UPDATE NO ACTION\<close>).
\<close>

definition update_complaint :: "db \<Rightarrow> uuid \<Rightarrow> uuid \<Rightarrow> complaint \<Rightarrow> error + db" where
  "update_complaint d uid cid NEW =
     (case find (\<lambda>c. c_id c = cid) (complaints d) of
        None \<Rightarrow> Inr d
      | Some OLD \<Rightarrow>
          if \<not> (complaints_select_policy d uid OLD \<and> complaints_update_using d uid OLD) then Inr d
          else if \<not> complaints_update_check d uid NEW then Inl Unauthorized
          else if \<not> rating_check NEW then Inl CheckViolation
          else if c_id NEW \<noteq> cid \<and> c_id NEW \<in> set (map c_id (complaints d)) then Inl UniqueViolation
          else if \<not> complaint_fk d NEW then Inl ForeignKeyViolation
          else if c_id NEW \<noteq> cid \<and> complaint_referenced d cid then Inl ForeignKeyViolation
          else Inr (d\<lparr>complaints := map (\<lambda>c. if c_id c = cid then NEW else c) (complaints d)\<rparr>))"

subsection \<open>Statements on identity lockers\<close>

text \<open>One policy, \<open>FOR ALL\<close>, with the admin role as \<open>USING\<close> and as \<open>WITH CHECK\<close>.\<close>

definition admin_can_manage_lockers :: "db \<Rightarrow> uuid \<Rightarrow> bool" where
  "admin_can_manage_lockers d uid = has_role d uid admin"

definition insert_identity_locker :: "db \<Rightarrow> uuid \<Rightarrow> identity_locker \<Rightarrow> error + db" where
  "insert_identity_locker d uid l =
     (if \<not> admin_can_manage_lockers d uid then Inl Unauthorized
      else if l_complaint_id l \<in> set (map l_complaint_id (identity_lockers d)) then Inl UniqueViolation
      else if \<not> locker_fk d l then Inl ForeignKeyViolation
      else Inr (d\<lparr>identity_lockers := identity_lockers d @ [l]\<rparr>))"

definition update_identity_locker :: "db \<Rightarrow> uuid \<Rightarrow> uuid \<Rightarrow> identity_locker \<Rightarrow> error + db" where
  "update_identity_locker d uid cid l =
     (case find (\<lambda>x. l_complaint_id x = cid) (identity_lockers d) of
        None \<Rightarrow> Inr d
      | Some OLD \<Rightarrow>
          if \<not> admin_can_manage_lockers d uid then Inr d
          else if l_complaint_id l \<noteq> cid \<and> l_complaint_id l \<in> set (map l_complaint_id (identity_lockers d))
            then Inl UniqueViolation
          else if \<not> locker_fk d l then Inl ForeignKeyViolation
          else Inr (d\<lparr>identity_lockers :=
                        map (\<lambda>x. if l_complaint_id x = cid then l else x) (identity_lockers d)\<rparr>))"

definition delete_identity_locker :: "db \<Rightarrow> uuid \<Rightarrow> uuid \<Rightarrow> error + db" where
  "delete_identity_locker d uid cid =
     (if \<not> admin_can_manage_lockers d uid then Inr d
      else Inr (d\<lparr>identity_lockers := filter (\<lambda>x. l_complaint_id x \<noteq> cid) (identity_lockers d)\<rparr>))"

text \<open>What a caller reads from the lockers.\<close>

definition select_identity_lockers :: "db \<Rightarrow> uuid \<Rightarrow> identity_locker list" where
  "select_identity_lockers d uid = filter (\<lambda>_. admin_can_manage_lockers d uid) (identity_lockers d)"

subsection \<open>Statements on role assignments\<close>

definition admins_manage_user_roles :: "db \<Rightarrow> uuid \<Rightarrow> bool" where
  "admins_manage_user_roles d uid = has_role d uid admin"

text \<open>\<open>UNIQUE (user_id, role)\<close> beside the primary key.\<close>

definition insert_user_role :: "db \<Rightarrow> uuid \<Rightarrow> user_role \<Rightarrow> error + db" where
  "insert_user_role d uid r =
     (if \<not> admins_manage_user_roles d uid then Inl Unauthorized
      else if r_id r \<in> set (map r_id (user_roles d)) then Inl UniqueViolation
      else if (user_id r, role r) \<in> set (map (\<lambda>x. (user_id x, role x)) (user_roles d))
        then Inl UniqueViolation
      else if user_id r \<notin> set (profiles d) then Inl ForeignKeyViolation
      else Inr (d\<lparr>user_roles := user_roles d @ [r]\<rparr>))"

definition update_user_role :: "db \<Rightarrow> uuid \<Rightarrow> uuid \<Rightarrow> user_role \<Rightarrow> error + db" where
  "update_user_role d uid rid r =
     (case find (\<lambda>x. r_id x = rid) (user_roles d) of
        None \<Rightarrow> Inr d
      | Some OLD \<Rightarrow>
          if \<not> admins_manage_user_roles d uid then Inr d
          else if r_id r \<noteq> rid \<and> r_id r \<in> set (map r_id (user_roles d)) then Inl UniqueViolation
          else if (user_id r, role r) \<in>
                  set (map (\<lambda>x. (user_id x, role x)) (filter (\<lambda>x. r_id x \<noteq> rid) (user_roles d)))
            then Inl UniqueViolation
          else if user_id r \<notin> set (profiles d) then Inl ForeignKeyViolation
          else Inr (d\<lparr>user_roles := map (\<lambda>x. if r_id x = rid then r else x) (user_roles d)\<rparr>))"

definition delete_user_role :: "db \<Rightarrow> uuid \<Rightarrow> uuid \<Rightarrow> error + db" where
  "delete_user_role d uid rid =
     (if \<not> admins_manage_user_roles d uid then Inr d
      else Inr (d\<lparr>user_roles := filter (\<lambda>x. r_id x \<noteq> rid) (user_roles d)\<rparr>))"

subsection \<open>Sign-up\<close>

text \<open>
  \<open>handle_new_user\<close> inserts \<open>(id, name, email, role)\<close> into \<open>profiles\<close>. The second
  migration drops the column \<open>role\<close> and leaves the function as it was, so in the schema
  as it stands the insert names a column that is gone: the trigger raises and the
  sign-up fails, whatever the new identifier is. The profiles of a store are those made
  before that migration.
\<close>

definition handle_new_user :: "db \<Rightarrow> uuid \<Rightarrow> error + db" where
  "handle_new_user d pid = Inl UndefinedColumn"

subsection \<open>Histories of the store\<close>

text \<open>
  The statements a client can issue. \<open>complaints\<close> and \<open>complaint_timeline\<close> have no
  \<open>DELETE\<close> policy and the timeline has no \<open>INSERT\<close> or \<open>UPDATE\<close> policy, so under
  RLS these statements reach no row and are left out. An \<open>UPDATE\<close> or \<open>DELETE\<close>
  addresses one row by its key and an \<open>UPDATE\<close> may rewrite every column of it; a
  statement over several rows is the sequence of its rows. Profile rows do not change.
\<close>

datatype op =
    SignUp uuid
  | InsertComplaint uuid uuid timestamptz complaint
  | UpdateComplaint uuid uuid complaint
  | InsertIdentityLocker uuid identity_locker
  | UpdateIdentityLocker uuid uuid identity_locker
  | DeleteIdentityLocker uuid uuid
  | InsertUserRole uuid user_role
  | UpdateUserRole uuid uuid user_role
  | DeleteUserRole uuid uuid

fun step :: "db \<Rightarrow> op \<Rightarrow> error + db" where
  "step d (SignUp pid) = handle_new_user d pid"
| "step d (InsertComplaint uid tid now NEW) = insert_complaint d uid tid now NEW"
| "step d (UpdateComplaint uid cid NEW) = update_complaint d uid cid NEW"
| "step d (InsertIdentityLocker uid l) = insert_identity_locker d uid l"
| "step d (UpdateIdentityLocker uid cid l) = update_identity_locker d uid cid l"
| "step d (DeleteIdentityLocker uid cid) = delete_identity_locker d uid cid"
| "step d (InsertUserRole uid r) = insert_user_role d uid r"
| "step d (UpdateUserRole uid rid r) = update_user_role d uid rid r"
| "step d (DeleteUserRole uid rid) = delete_user_role d uid rid"

text \<open>
  A history runs whole statements one after the other and stops at its first failing
  statement. Transactions that overlap in time are not histories of this kind.
\<close>

fun run :: "db \<Rightarrow> op list \<Rightarrow> error + db" where
  "run d [] = Inr d"
| "run d (x # xs) = (case step d x of Inl e \<Rightarrow> Inl e | Inr d' \<Rightarrow> run d' xs)"

text \<open>
  The store starts with the three complaint tables empty; profiles and role assignments
  are set up by the operator, who is not subject to RLS, and respect their keys.
\<close>

definition initial :: "db \<Rightarrow> bool" where
  "initial d =
     (complaints d = [] \<and> complaint_timeline d = [] \<and> identity_lockers d = [] \<and>
      distinct (profiles d) \<and> distinct (map r_id (user_roles d)) \<and>
      distinct (map (\<lambda>x. (user_id x, role x)) (user_roles d)) \<and>
      (\<forall>r \<in> set (user_roles d). user_id r \<in> set (profiles d)))"

inductive reachable :: "db \<Rightarrow> bool" where
  init: "initial d \<Longrightarrow> reachable d"
| step: "reachable d \<Longrightarrow> step d x = Inr d' \<Longrightarrow> reachable d'"

subsection \<open>Invariants of the store\<close>

text \<open>The creation entry of a complaint in the timeline.\<close>

definition submitted_entry :: "db \<Rightarrow> uuid \<Rightarrow> bool" where
  "submitted_entry d cid =
     (\<exists>e \<in> set (complaint_timeline d). complaint_id e = cid \<and> message e = ''Complaint submitted'')"

definition audit_ok :: "db \<Rightarrow> bool" where
  "audit_ok d = (\<forall>c \<in> set (complaints d). submitted_entry d (c_id c))"

text \<open>Keys and references of the tables, as the constraints keep them.\<close>

definition complaints_ok :: "db \<Rightarrow> bool" where
  "complaints_ok d =
     (distinct (map c_id (complaints d)) \<and>
      (\<forall>c \<in> set (complaints d). rating_check c \<and> complaint_fk d c))"

definition lockers_ok :: "db \<Rightarrow> bool" where
  "lockers_ok d =
     (distinct (map l_complaint_id (identity_lockers d)) \<and>
      (\<forall>l \<in> set (identity_lockers d). locker_fk d l))"

definition roles_ok :: "db \<Rightarrow> bool" where
  "roles_ok d =
     (distinct (map r_id (user_roles d)) \<and>
      distinct (map (\<lambda>x. (user_id x, role x)) (user_roles d)))"

text \<open>Whether a statement is an \<open>UPDATE\<close> of complaints, and who issues a statement
  (a sign-up comes from the authentication service, not from a signed-in caller).\<close>

fun is_complaint_update :: "op \<Rightarrow> bool" where
  "is_complaint_update (UpdateComplaint uid cid NEW) = True"
| "is_complaint_update _ = False"

fun issued_by :: "op \<Rightarrow> uuid option" where
  "issued_by (SignUp pid) = None"
| "issued_by (InsertComplaint uid tid now NEW) = Some uid"
| "issued_by (UpdateComplaint uid cid NEW) = Some uid"
| "issued_by (InsertIdentityLocker uid l) = Some uid"
| "issued_by (UpdateIdentityLocker uid cid l) = Some uid"
| "issued_by (DeleteIdentityLocker uid cid) = Some uid"
| "issued_by (InsertUserRole uid r) = Some uid"
| "issued_by (UpdateUserRole uid rid r) = Some uid"
| "issued_by (DeleteUserRole uid rid) = Some uid"

subsection \<open>A small store for concrete runs\<close>

text \<open>Profile 1 is a student, 2 holds the staff role and 3 the admin role.\<close>

definition demo_init :: db where
  "demo_init =
     \<lparr>profiles = [1, 2, 3],
      user_roles = [\<lparr>r_id = 100, user_id = 2, role = staff\<rparr>, \<lparr>r_id = 101, user_id = 3, role = admin\<rparr>],
      complaints = [], complaint_timeline = [], identity_lockers = []\<rparr>"

definition demo_complaint :: "uuid \<Rightarrow> uuid \<Rightarrow> bool \<Rightarrow> complaint_status \<Rightarrow> uuid option \<Rightarrow> complaint" where
  "demo_complaint cid sid anon st sa =
     \<lparr>c_id = cid, student_id = sid, category = hostel, severity = low, title = ''Broken tap'',
      description = ''The tap in block A leaks'', is_anonymous = anon, status = st,
      staff_assigned = sa, rating = None, created_at = 0, resolved_at = None,
      withdrawn_at = None, withdrawal_reason = None\<rparr>"

definition demo_entry :: "uuid \<Rightarrow> uuid \<Rightarrow> uuid \<Rightarrow> timeline_row" where
  "demo_entry tid cid sid =
     \<lparr>t_id = tid, complaint_id = cid, updated_by = Some sid, message = ''Complaint submitted'',
      t_created_at = 0\<rparr>"

definition demo_locker :: "uuid \<Rightarrow> uuid \<Rightarrow> string \<Rightarrow> identity_locker" where
  "demo_locker cid sid st =
     \<lparr>l_complaint_id = cid, real_student_id = sid, reveal_status = st, reveal_reason = None,
      reveal_requested_by = None, revealed_at = None\<rparr>"

definition demo_db :: "complaint list \<Rightarrow> timeline_row list \<Rightarrow> identity_locker list \<Rightarrow> db" where
  "demo_db cs es ls = demo_init\<lparr>complaints := cs, complaint_timeline := es, identity_lockers := ls\<rparr>"

section \<open>Properties\<close>

lemmas demo_defs = demo_init_def demo_complaint_def demo_entry_def demo_locker_def demo_db_def

lemmas stmt_defs = insert_complaint_def update_complaint_def check_active_complaint_limit_def
  active_count_def complaints_insert_check_def students_can_create_def rating_check_def
  complaint_fk_def opt_ref_def on_anonymous_complaint_def create_identity_locker_def
  locker_fk_def add_complaint_timeline_def timeline_fk_def complaints_select_policy_def
  complaints_update_using_def complaints_update_check_def students_can_view_own_def
  students_can_update_own_def staff_can_view_assigned_def staff_can_update_assigned_def
  admin_can_view_all_def admin_can_update_all_def has_role_def complaint_referenced_def
  insert_identity_locker_def update_identity_locker_def delete_identity_locker_def
  admin_can_manage_lockers_def insert_user_role_def update_user_role_def delete_user_role_def
  admins_manage_user_roles_def handle_new_user_def

subsection \<open>What a statement changes\<close>

lemma find_c_id: "find (\<lambda>c. c_id c = cid) xs = Some y \<Longrightarrow> y \<in> set xs \<and> c_id y = cid"
  by (induction xs) (auto split: if_splits)

lemma submitted_entry_referenced: "submitted_entry d cid \<Longrightarrow> complaint_referenced d cid"
  by (auto simp: submitted_entry_def complaint_referenced_def)

lemma on_anonymous_complaint_same:
  "on_anonymous_complaint d NEW = Inr d' \<Longrightarrow>
     complaints d' = complaints d \<and> complaint_timeline d' = complaint_timeline d \<and>
     profiles d' = profiles d \<and> user_roles d' = user_roles d"
  by (auto simp: on_anonymous_complaint_def create_identity_locker_def Let_def split: if_splits)

lemma add_complaint_timeline_result:
  "add_complaint_timeline tid now d NEW = Inr d' \<Longrightarrow>
     d' = d\<lparr>complaint_timeline := complaint_timeline d @
            [\<lparr>t_id = tid, complaint_id = c_id NEW, updated_by = Some (student_id NEW),
              message = ''Complaint submitted'', t_created_at = now\<rparr>]\<rparr>"
  by (auto simp: add_complaint_timeline_def Let_def split: if_splits)

lemma insert_complaint_result:
  assumes "insert_complaint d uid tid now NEW = Inr d'"
  shows "complaints d' = complaints d @ [NEW]"
    and "complaint_timeline d' = complaint_timeline d @
            [\<lparr>t_id = tid, complaint_id = c_id NEW, updated_by = Some (student_id NEW),
              message = ''Complaint submitted'', t_created_at = now\<rparr>]"
    and "profiles d' = profiles d" and "user_roles d' = user_roles d"
proof -
  from assms obtain d2 where
    a: "on_anonymous_complaint (d\<lparr>complaints := complaints d @ [NEW]\<rparr>) NEW = Inr d2" and
    b: "add_complaint_timeline tid now d2 NEW = Inr d'"
    by (auto simp: insert_complaint_def check_active_complaint_limit_def
             split: if_splits sum.splits)
  note c = on_anonymous_complaint_same [OF a] add_complaint_timeline_result [OF b]
  show "complaints d' = complaints d @ [NEW]" using c by simp
  show "complaint_timeline d' = complaint_timeline d @
            [\<lparr>t_id = tid, complaint_id = c_id NEW, updated_by = Some (student_id NEW),
              message = ''Complaint submitted'', t_created_at = now\<rparr>]" using c by simp
  show "profiles d' = profiles d" using c by simp
  show "user_roles d' = user_roles d" using c by simp
qed

lemma update_complaint_result:
  assumes "update_complaint d uid cid NEW = Inr d'"
  shows "d' = d \<or>
         (\<exists>OLD \<in> set (complaints d). c_id OLD = cid \<and>
            complaints_update_using d uid OLD \<and> complaints_update_check d uid NEW \<and>
            rating_check NEW \<and> complaint_fk d NEW \<and>
            (c_id NEW \<noteq> cid \<longrightarrow> c_id NEW \<notin> set (map c_id (complaints d)) \<and> \<not> complaint_referenced d cid) \<and>
            d' = d\<lparr>complaints := map (\<lambda>c. if c_id c = cid then NEW else c) (complaints d)\<rparr>)"
proof (cases "find (\<lambda>c. c_id c = cid) (complaints d)")
  case None
  with assms show ?thesis by (simp add: update_complaint_def)
next
  case (Some OLD)
  note f = find_c_id [OF Some]
  from assms Some show ?thesis
    using f by (auto simp: update_complaint_def split: if_splits)
qed

lemma step_timeline_mono:
  "step d x = Inr d' \<Longrightarrow> set (complaint_timeline d) \<subseteq> set (complaint_timeline d')"
proof (cases x)
  case (InsertComplaint uid tid now NEW)
  assume "step d x = Inr d'"
  with InsertComplaint show ?thesis
    by (auto dest: insert_complaint_result(2))
next
  case (UpdateComplaint uid cid NEW)
  assume "step d x = Inr d'"
  with UpdateComplaint show ?thesis
    by (auto dest!: update_complaint_result)
qed (auto simp: handle_new_user_def insert_identity_locker_def update_identity_locker_def
       delete_identity_locker_def insert_user_role_def update_user_role_def delete_user_role_def
       split: if_splits option.splits)

lemma map_replace_keys:
  "set (map f (map (\<lambda>x. if f x = k then y else x) xs)) \<subseteq> insert (f y) (set (map f xs) - {k})"
  by (induction xs) auto

lemma map_replace_keys_same:
  "f y = k \<Longrightarrow> set (map f (map (\<lambda>x. if f x = k then y else x) xs)) = set (map f xs)"
  by (induction xs) auto

lemma map_replace_keys_other:
  "j \<in> set (map f xs) \<Longrightarrow> j \<noteq> k \<Longrightarrow> j \<in> set (map f (map (\<lambda>x. if f x = k then y else x) xs))"
  by (induction xs) auto

lemma map_replace_absent:
  "k \<notin> set (map f xs) \<Longrightarrow> map (\<lambda>x. if f x = k then y else x) xs = xs"
  by (induction xs) auto

lemma distinct_map_replace:
  "distinct (map f xs) \<Longrightarrow> f y = k \<or> f y \<notin> set (map f xs) \<Longrightarrow>
     distinct (map f (map (\<lambda>x. if f x = k then y else x) xs))"
proof (induction xs)
  case Nil
  then show ?case by simp
next
  case (Cons a xs)
  show ?case
  proof (cases "f a = k")
    case True
    with Cons.prems have "k \<notin> set (map f xs)" by auto
    then have "map (\<lambda>x. if f x = k then y else x) xs = xs" by (rule map_replace_absent)
    with Cons.prems True show ?thesis by auto
  next
    case False
    have "f a \<notin> insert (f y) (set (map f xs) - {k})"
      using Cons.prems False by auto
    then have "f a \<notin> set (map f (map (\<lambda>x. if f x = k then y else x) xs))"
      using map_replace_keys [of f k y xs] by blast
    with Cons False show ?thesis by auto
  qed
qed

lemma distinct_pairs_replace:
  "distinct (map f xs) \<Longrightarrow> distinct (map g xs) \<Longrightarrow>
     g y \<notin> set (map g (filter (\<lambda>x. f x \<noteq> k) xs)) \<Longrightarrow>
     distinct (map g (map (\<lambda>x. if f x = k then y else x) xs))"
proof (induction xs)
  case Nil
  then show ?case by simp
next
  case (Cons a xs)
  show ?case
  proof (cases "f a = k")
    case True
    with Cons.prems have k: "k \<notin> set (map f xs)" by auto
    then have m: "map (\<lambda>x. if f x = k then y else x) xs = xs" by (rule map_replace_absent)
    from k have "filter (\<lambda>x. f x \<noteq> k) xs = xs" by (induction xs) auto
    with Cons.prems True m show ?thesis by auto
  next
    case False
    have "set (map g (map (\<lambda>x. if f x = k then y else x) xs)) \<subseteq> insert (g y) (set (map g xs))"
      by (induction xs) auto
    moreover have "g a \<noteq> g y" using Cons.prems False by auto
    moreover have "g a \<notin> set (map g xs)" using Cons.prems by auto
    ultimately have "g a \<notin> set (map g (map (\<lambda>x. if f x = k then y else x) xs))" by blast
    with Cons False show ?thesis by auto
  qed
qed

lemma insert_complaint_checks:
  assumes "insert_complaint d uid tid now NEW = Inr d'"
  shows "active_count d (student_id NEW) < 3" and "uid = student_id NEW" and "rating_check NEW"
    and "c_id NEW \<notin> set (map c_id (complaints d))" and "complaint_fk d NEW"
  using assms
  by (auto simp: insert_complaint_def check_active_complaint_limit_def complaints_insert_check_def
        students_can_create_def split: if_splits sum.splits)

lemma insert_complaint_lockers:
  assumes "insert_complaint d uid tid now NEW = Inr d'"
  shows "identity_lockers d' =
     (if is_anonymous NEW \<and> c_id NEW \<notin> set (map l_complaint_id (identity_lockers d))
      then identity_lockers d @
             [\<lparr>l_complaint_id = c_id NEW, real_student_id = student_id NEW,
               reveal_status = ''not_revealed'', reveal_reason = None,
               reveal_requested_by = None, revealed_at = None\<rparr>]
      else identity_lockers d)"
proof -
  from assms obtain d2 where
    a: "on_anonymous_complaint (d\<lparr>complaints := complaints d @ [NEW]\<rparr>) NEW = Inr d2" and
    b: "add_complaint_timeline tid now d2 NEW = Inr d'"
    by (auto simp: insert_complaint_def check_active_complaint_limit_def
             split: if_splits sum.splits)
  from add_complaint_timeline_result [OF b] have "identity_lockers d' = identity_lockers d2"
    by simp
  moreover from a have "identity_lockers d2 =
     (if is_anonymous NEW \<and> c_id NEW \<notin> set (map l_complaint_id (identity_lockers d))
      then identity_lockers d @
             [\<lparr>l_complaint_id = c_id NEW, real_student_id = student_id NEW,
               reveal_status = ''not_revealed'', reveal_reason = None,
               reveal_requested_by = None, revealed_at = None\<rparr>]
      else identity_lockers d)"
    by (auto simp: on_anonymous_complaint_def create_identity_locker_def Let_def split: if_splits)
  ultimately show ?thesis by simp
qed

subsection \<open>Keys and references are kept\<close>

lemma complaint_fk_profiles:
  "set (profiles d) \<subseteq> set (profiles d') \<Longrightarrow> complaint_fk d c \<Longrightarrow> complaint_fk d' c"
  by (auto simp: complaint_fk_def opt_ref_def split: option.splits)

lemma complaints_ok_same:
  "complaints_ok d \<Longrightarrow> complaints d' = complaints d \<Longrightarrow> set (profiles d) \<subseteq> set (profiles d') \<Longrightarrow>
     complaints_ok d'"
  unfolding complaints_ok_def by (auto intro: complaint_fk_profiles)

lemma step_complaints_ok:
  assumes "complaints_ok d" and "step d x = Inr d'"
  shows "complaints_ok d'"
proof (cases x)
  case (InsertComplaint uid tid now NEW)
  with assms(2) have r: "insert_complaint d uid tid now NEW = Inr d'" by simp
  note k = insert_complaint_checks(3,4,5) [OF r] and s = insert_complaint_result(1,3) [OF r]
  have "set (profiles d) \<subseteq> set (profiles d')" using s by simp
  then have "\<forall>c. complaint_fk d c \<longrightarrow> complaint_fk d' c" by (blast intro: complaint_fk_profiles)
  with assms(1) k s show ?thesis
    unfolding complaints_ok_def by auto
next
  case (UpdateComplaint uid cid NEW)
  with assms(2) have r: "update_complaint d uid cid NEW = Inr d'" by simp
  from update_complaint_result [OF r] show ?thesis
  proof
    assume "d' = d" with assms(1) show ?thesis by simp
  next
    assume "\<exists>OLD \<in> set (complaints d). c_id OLD = cid \<and>
            complaints_update_using d uid OLD \<and> complaints_update_check d uid NEW \<and>
            rating_check NEW \<and> complaint_fk d NEW \<and>
            (c_id NEW \<noteq> cid \<longrightarrow> c_id NEW \<notin> set (map c_id (complaints d)) \<and> \<not> complaint_referenced d cid) \<and>
            d' = d\<lparr>complaints := map (\<lambda>c. if c_id c = cid then NEW else c) (complaints d)\<rparr>"
    then have n: "rating_check NEW" "complaint_fk d NEW"
      and u: "c_id NEW = cid \<or> c_id NEW \<notin> set (map c_id (complaints d))"
      and d': "d' = d\<lparr>complaints := map (\<lambda>c. if c_id c = cid then NEW else c) (complaints d)\<rparr>"
      by blast+
    from assms(1) have "distinct (map c_id (complaints d))" by (simp add: complaints_ok_def)
    from distinct_map_replace [OF this u]
    have dist: "distinct (map c_id (complaints d'))" unfolding d' by simp
    have fk: "\<And>c. complaint_fk d' c = complaint_fk d c"
      unfolding d' by (simp add: complaint_fk_def)
    have "\<forall>c \<in> set (complaints d'). rating_check c \<and> complaint_fk d' c"
      using assms(1) n unfolding fk unfolding d' complaints_ok_def by auto
    with dist show ?thesis by (simp add: complaints_ok_def)
  qed
next
  case (SignUp pid)
  with assms show ?thesis
    by (auto simp: handle_new_user_def split: if_splits intro: complaints_ok_same)
next
  case (InsertIdentityLocker uid l)
  with assms show ?thesis
    by (auto simp: insert_identity_locker_def split: if_splits intro: complaints_ok_same)
next
  case (UpdateIdentityLocker uid cid l)
  with assms show ?thesis
    by (auto simp: update_identity_locker_def split: if_splits option.splits intro: complaints_ok_same)
next
  case (DeleteIdentityLocker uid cid)
  with assms show ?thesis
    by (auto simp: delete_identity_locker_def split: if_splits intro: complaints_ok_same)
next
  case (InsertUserRole uid r)
  with assms show ?thesis
    by (auto simp: insert_user_role_def split: if_splits intro: complaints_ok_same)
next
  case (UpdateUserRole uid rid r)
  with assms show ?thesis
    by (auto simp: update_user_role_def split: if_splits option.splits intro: complaints_ok_same)
next
  case (DeleteUserRole uid rid)
  with assms show ?thesis
    by (auto simp: delete_user_role_def split: if_splits intro: complaints_ok_same)
qed

lemma locker_fk_mono:
  "locker_fk d l \<Longrightarrow> set (map c_id (complaints d)) \<subseteq> set (map c_id (complaints d')) \<Longrightarrow>
     set (profiles d) \<subseteq> set (profiles d') \<Longrightarrow> locker_fk d' l"
  by (auto simp: locker_fk_def opt_ref_def split: option.splits)

lemma lockers_ok_same:
  "lockers_ok d \<Longrightarrow> complaints d' = complaints d \<Longrightarrow> identity_lockers d' = identity_lockers d \<Longrightarrow>
     profiles d' = profiles d \<Longrightarrow> lockers_ok d'"
  by (simp add: lockers_ok_def locker_fk_def)

lemma step_lockers_ok:
  assumes "lockers_ok d" and "step d x = Inr d'"
  shows "lockers_ok d'"
proof (cases x)
  case (InsertComplaint uid tid now NEW)
  with assms(2) have r: "insert_complaint d uid tid now NEW = Inr d'" by simp
  note s = insert_complaint_result(1,3) [OF r]
  from insert_complaint_checks(5) [OF r] have p: "student_id NEW \<in> set (profiles d)"
    by (simp add: complaint_fk_def)
  have sub: "set (map c_id (complaints d)) \<subseteq> set (map c_id (complaints d'))"
    "set (profiles d) \<subseteq> set (profiles d')"
    using s by auto
  have old: "\<forall>l \<in> set (identity_lockers d). locker_fk d' l"
  proof
    fix l assume "l \<in> set (identity_lockers d)"
    with assms(1) have "locker_fk d l" by (simp add: lockers_ok_def)
    from locker_fk_mono [OF this sub] show "locker_fk d' l" .
  qed
  have new: "locker_fk d' \<lparr>l_complaint_id = c_id NEW, real_student_id = student_id NEW,
               reveal_status = ''not_revealed'', reveal_reason = None,
               reveal_requested_by = None, revealed_at = None\<rparr>"
    using s p by (simp add: locker_fk_def opt_ref_def)
  from assms(1) have dist: "distinct (map l_complaint_id (identity_lockers d))"
    by (simp add: lockers_ok_def)
  show ?thesis
    unfolding lockers_ok_def insert_complaint_lockers [OF r]
    using old new dist by auto
next
  case (UpdateComplaint uid cid NEW)
  with assms(2) have r: "update_complaint d uid cid NEW = Inr d'" by simp
  from update_complaint_result [OF r] show ?thesis
  proof
    assume "d' = d" with assms(1) show ?thesis by simp
  next
    assume "\<exists>OLD \<in> set (complaints d). c_id OLD = cid \<and>
            complaints_update_using d uid OLD \<and> complaints_update_check d uid NEW \<and>
            rating_check NEW \<and> complaint_fk d NEW \<and>
            (c_id NEW \<noteq> cid \<longrightarrow> c_id NEW \<notin> set (map c_id (complaints d)) \<and> \<not> complaint_referenced d cid) \<and>
            d' = d\<lparr>complaints := map (\<lambda>c. if c_id c = cid then NEW else c) (complaints d)\<rparr>"
    then have u: "c_id NEW = cid \<or> \<not> complaint_referenced d cid"
      and d': "d' = d\<lparr>complaints := map (\<lambda>c. if c_id c = cid then NEW else c) (complaints d)\<rparr>"
      by blast+
    have "\<forall>l \<in> set (identity_lockers d). locker_fk d' l"
    proof
      fix l assume l: "l \<in> set (identity_lockers d)"
      with assms(1) have fk: "locker_fk d l" by (simp add: lockers_ok_def)
      then have m: "l_complaint_id l \<in> set (map c_id (complaints d))"
        by (simp add: locker_fk_def)
      from u have "l_complaint_id l \<in> set (map c_id (complaints d'))"
      proof
        assume "c_id NEW = cid"
        from map_replace_keys_same [of c_id NEW cid "complaints d", OF this] m
        show ?thesis unfolding d' by simp
      next
        assume "\<not> complaint_referenced d cid"
        with l have "l_complaint_id l \<noteq> cid" by (auto simp: complaint_referenced_def)
        from map_replace_keys_other [OF m this, of NEW]
        show ?thesis unfolding d' by simp
      qed
      moreover have "profiles d' = profiles d" unfolding d' by simp
      ultimately show "locker_fk d' l" using fk by (simp add: locker_fk_def)
    qed
    with assms(1) show ?thesis unfolding d' by (simp add: lockers_ok_def)
  qed
next
  case (SignUp pid)
  with assms(2) have d': "d' = d\<lparr>profiles := profiles d @ [pid]\<rparr>"
    by (auto simp: handle_new_user_def split: if_splits)
  have "\<forall>l \<in> set (identity_lockers d). locker_fk d' l"
  proof
    fix l assume "l \<in> set (identity_lockers d)"
    with assms(1) have "locker_fk d l" by (simp add: lockers_ok_def)
    then show "locker_fk d' l" unfolding d' by (rule locker_fk_mono) auto
  qed
  with assms(1) show ?thesis unfolding d' by (simp add: lockers_ok_def)
next
  case (InsertIdentityLocker uid l)
  with assms show ?thesis
    by (auto simp: insert_identity_locker_def lockers_ok_def locker_fk_def split: if_splits)
next
  case (UpdateIdentityLocker uid cid l)
  with assms(2) have r: "update_identity_locker d uid cid l = Inr d'" by simp
  show ?thesis
  proof (cases "d' = d")
    case True
    with assms(1) show ?thesis by simp
  next
    case False
    with r have u: "l_complaint_id l = cid \<or> l_complaint_id l \<notin> set (map l_complaint_id (identity_lockers d))"
      and fk: "locker_fk d l"
      and d': "d' = d\<lparr>identity_lockers :=
                  map (\<lambda>x. if l_complaint_id x = cid then l else x) (identity_lockers d)\<rparr>"
      by (auto simp: update_identity_locker_def split: if_splits option.splits)
    from assms(1) have "distinct (map l_complaint_id (identity_lockers d))"
      by (simp add: lockers_ok_def)
    from distinct_map_replace [OF this u]
    have "distinct (map l_complaint_id (identity_lockers d'))" unfolding d' by simp
    moreover have "\<forall>x \<in> set (identity_lockers d'). locker_fk d' x"
      using assms(1) fk unfolding d' by (auto simp: lockers_ok_def locker_fk_def)
    ultimately show ?thesis by (simp add: lockers_ok_def)
  qed
next
  case (DeleteIdentityLocker uid cid)
  with assms show ?thesis
    by (auto simp: delete_identity_locker_def lockers_ok_def locker_fk_def distinct_map_filter
          split: if_splits)
next
  case (InsertUserRole uid r)
  with assms show ?thesis
    by (auto simp: insert_user_role_def split: if_splits intro: lockers_ok_same)
next
  case (UpdateUserRole uid rid r)
  with assms show ?thesis
    by (auto simp: update_user_role_def split: if_splits option.splits intro: lockers_ok_same)
next
  case (DeleteUserRole uid rid)
  with assms show ?thesis
    by (auto simp: delete_user_role_def split: if_splits intro: lockers_ok_same)
qed

lemma roles_ok_same: "roles_ok d \<Longrightarrow> user_roles d' = user_roles d \<Longrightarrow> roles_ok d'"
  by (simp add: roles_ok_def)

lemma step_roles_ok:
  assumes "roles_ok d" and "step d x = Inr d'"
  shows "roles_ok d'"
proof (cases x)
  case (InsertComplaint uid tid now NEW)
  with assms(2) have r: "insert_complaint d uid tid now NEW = Inr d'" by simp
  from assms(1) insert_complaint_result(4) [OF r] show ?thesis by (rule roles_ok_same)
next
  case (UpdateComplaint uid cid NEW)
  with assms(2) have r: "update_complaint d uid cid NEW = Inr d'" by simp
  from update_complaint_result [OF r] have "user_roles d' = user_roles d" by auto
  with assms(1) show ?thesis by (rule roles_ok_same)
next
  case (SignUp pid)
  with assms show ?thesis
    by (auto simp: handle_new_user_def split: if_splits intro: roles_ok_same)
next
  case (InsertIdentityLocker uid l)
  with assms show ?thesis
    by (auto simp: insert_identity_locker_def split: if_splits intro: roles_ok_same)
next
  case (UpdateIdentityLocker uid cid l)
  with assms show ?thesis
    by (auto simp: update_identity_locker_def split: if_splits option.splits intro: roles_ok_same)
next
  case (DeleteIdentityLocker uid cid)
  with assms show ?thesis
    by (auto simp: delete_identity_locker_def split: if_splits intro: roles_ok_same)
next
  case (InsertUserRole uid r)
  with assms show ?thesis
    by (auto simp: insert_user_role_def roles_ok_def split: if_splits)
next
  case (UpdateUserRole uid rid r)
  with assms(2) have r: "update_user_role d uid rid r = Inr d'" by simp
  show ?thesis
  proof (cases "d' = d")
    case True
    with assms(1) show ?thesis by simp
  next
    case False
    with r have u: "r_id r = rid \<or> r_id r \<notin> set (map r_id (user_roles d))"
      and p: "(user_id r, role r) \<notin>
                set (map (\<lambda>x. (user_id x, role x)) (filter (\<lambda>x. r_id x \<noteq> rid) (user_roles d)))"
      and d': "d' = d\<lparr>user_roles := map (\<lambda>x. if r_id x = rid then r else x) (user_roles d)\<rparr>"
      by (auto simp: update_user_role_def split: if_splits option.splits)
    from assms(1) have a: "distinct (map r_id (user_roles d))"
      and b: "distinct (map (\<lambda>x. (user_id x, role x)) (user_roles d))"
      by (simp_all add: roles_ok_def)
    from distinct_map_replace [OF a u] distinct_pairs_replace [OF a b p]
    show ?thesis unfolding d' by (simp add: roles_ok_def)
  qed
next
  case (DeleteUserRole uid rid)
  with assms show ?thesis
    by (auto simp: delete_user_role_def roles_ok_def distinct_map_filter split: if_splits)
qed

lemma reachable_complaints_ok: "reachable d \<Longrightarrow> complaints_ok d"
proof (induction rule: reachable.induct)
  case (init d)
  then show ?case by (simp add: initial_def complaints_ok_def)
next
  case (step d x d')
  then show ?case by (blast intro: step_complaints_ok)
qed

lemma reachable_lockers_ok: "reachable d \<Longrightarrow> lockers_ok d"
proof (induction rule: reachable.induct)
  case (init d)
  then show ?case by (simp add: initial_def lockers_ok_def)
next
  case (step d x d')
  then show ?case by (blast intro: step_lockers_ok)
qed

lemma reachable_roles_ok: "reachable d \<Longrightarrow> roles_ok d"
proof (induction rule: reachable.induct)
  case (init d)
  then show ?case by (simp add: initial_def roles_ok_def)
next
  case (step d x d')
  then show ?case by (blast intro: step_roles_ok)
qed

subsection \<open>The creation entry of every complaint\<close>

lemma step_audit_ok:
  assumes "audit_ok d" and "step d x = Inr d'"
  shows "audit_ok d'"
proof (cases x)
  case (InsertComplaint uid tid now NEW)
  with assms(2) have r: "insert_complaint d uid tid now NEW = Inr d'" by simp
  show ?thesis
    using assms(1) insert_complaint_result(1,2) [OF r]
    by (auto simp: audit_ok_def submitted_entry_def)
next
  case (UpdateComplaint uid cid NEW)
  with assms(2) have r: "update_complaint d uid cid NEW = Inr d'" by simp
  from update_complaint_result [OF r] show ?thesis
  proof
    assume "d' = d" with assms(1) show ?thesis by simp
  next
    assume "\<exists>OLD \<in> set (complaints d). c_id OLD = cid \<and>
            complaints_update_using d uid OLD \<and> complaints_update_check d uid NEW \<and>
            rating_check NEW \<and> complaint_fk d NEW \<and>
            (c_id NEW \<noteq> cid \<longrightarrow> c_id NEW \<notin> set (map c_id (complaints d)) \<and> \<not> complaint_referenced d cid) \<and>
            d' = d\<lparr>complaints := map (\<lambda>c. if c_id c = cid then NEW else c) (complaints d)\<rparr>"
    then obtain OLD where o: "OLD \<in> set (complaints d)" "c_id OLD = cid"
      and k: "c_id NEW \<noteq> cid \<longrightarrow> \<not> complaint_referenced d cid"
      and d': "d' = d\<lparr>complaints := map (\<lambda>c. if c_id c = cid then NEW else c) (complaints d)\<rparr>"
      by blast
    from assms(1) o have "submitted_entry d cid" by (auto simp: audit_ok_def)
    with k have same: "c_id NEW = cid" "submitted_entry d (c_id NEW)"
      by (auto dest: submitted_entry_referenced)
    show ?thesis
      using assms(1) same unfolding d' audit_ok_def submitted_entry_def by auto
  qed
next
  case (SignUp pid)
  with assms show ?thesis
    by (auto simp: handle_new_user_def audit_ok_def submitted_entry_def split: if_splits)
next
  case (InsertIdentityLocker uid l)
  with assms show ?thesis
    by (auto simp: insert_identity_locker_def audit_ok_def submitted_entry_def split: if_splits)
next
  case (UpdateIdentityLocker uid cid l)
  with assms show ?thesis
    by (auto simp: update_identity_locker_def audit_ok_def submitted_entry_def
             split: if_splits option.splits)
next
  case (DeleteIdentityLocker uid cid)
  with assms show ?thesis
    by (auto simp: delete_identity_locker_def audit_ok_def submitted_entry_def split: if_splits)
next
  case (InsertUserRole uid r)
  with assms show ?thesis
    by (auto simp: insert_user_role_def audit_ok_def submitted_entry_def split: if_splits)
next
  case (UpdateUserRole uid rid r)
  with assms show ?thesis
    by (auto simp: update_user_role_def audit_ok_def submitted_entry_def
             split: if_splits option.splits)
next
  case (DeleteUserRole uid rid)
  with assms show ?thesis
    by (auto simp: delete_user_role_def audit_ok_def submitted_entry_def split: if_splits)
qed

lemma reachable_audit_ok: "reachable d \<Longrightarrow> audit_ok d"
proof (induction rule: reachable.induct)
  case (init d)
  then show ?case by (simp add: initial_def audit_ok_def)
next
  case (step d x d')
  then show ?case by (blast intro: step_audit_ok)
qed

lemma initial_demo_init: "initial demo_init"
  by (simp add: initial_def demo_init_def)

lemma run_reachable: "reachable d \<Longrightarrow> run d xs = Inr d' \<Longrightarrow> reachable d'"
proof (induction xs arbitrary: d)
  case Nil
  then show ?case by simp
next
  case (Cons x xs)
  then show ?case
    by (auto split: sum.splits intro: reachable.step)
qed

text \<open>
  C2. In every reachable state each stored complaint has a timeline entry with the
  message "Complaint submitted"; a successful insert stores the complaint and that entry
  in one step, and a failed insert stores neither (its result carries no database).
\<close>

theorem complaint_has_submitted_entry:
  "reachable d \<Longrightarrow>
     (\<forall>c \<in> set (complaints d).
        \<exists>e \<in> set (complaint_timeline d). complaint_id e = c_id c \<and> message e = ''Complaint submitted'') \<and>
     (\<forall>uid tid now NEW d'. insert_complaint d uid tid now NEW = Inr d' \<longrightarrow>
        NEW \<in> set (complaints d') \<and>
        \<lparr>t_id = tid, complaint_id = c_id NEW, updated_by = Some (student_id NEW),
         message = ''Complaint submitted'', t_created_at = now\<rparr> \<in> set (complaint_timeline d'))"
proof
  assume "reachable d"
  then have "audit_ok d" by (rule reachable_audit_ok)
  then show "\<forall>c \<in> set (complaints d).
        \<exists>e \<in> set (complaint_timeline d). complaint_id e = c_id c \<and> message e = ''Complaint submitted''"
    by (simp add: audit_ok_def submitted_entry_def)
next
  show "\<forall>uid tid now NEW d'. insert_complaint d uid tid now NEW = Inr d' \<longrightarrow>
        NEW \<in> set (complaints d') \<and>
        \<lparr>t_id = tid, complaint_id = c_id NEW, updated_by = Some (student_id NEW),
         message = ''Complaint submitted'', t_created_at = now\<rparr> \<in> set (complaint_timeline d')"
    by (auto dest: insert_complaint_result(1,2))
qed

theorem complaint_has_submitted_entry_witness:
  "reachable (demo_db [demo_complaint 10 1 True submitted None] [demo_entry 50 10 1]
                [demo_locker 10 1 ''not_revealed'']) \<and>
   (\<exists>e \<in> set (complaint_timeline (demo_db [demo_complaint 10 1 True submitted None]
                  [demo_entry 50 10 1] [demo_locker 10 1 ''not_revealed''])).
        complaint_id e = c_id (demo_complaint 10 1 True submitted None) \<and>
        message e = ''Complaint submitted'')"
proof -
  have s: "step demo_init (InsertComplaint 1 50 0 (demo_complaint 10 1 True submitted None)) =
      Inr (demo_db [demo_complaint 10 1 True submitted None] [demo_entry 50 10 1]
             [demo_locker 10 1 ''not_revealed''])"
    by (simp add: demo_defs stmt_defs)
  have r: "reachable (demo_db [demo_complaint 10 1 True submitted None] [demo_entry 50 10 1]
             [demo_locker 10 1 ''not_revealed''])"
    by (rule reachable.step [OF reachable.init [OF initial_demo_init] s])
  have m: "demo_complaint 10 1 True submitted None \<in>
      set (complaints (demo_db [demo_complaint 10 1 True submitted None] [demo_entry 50 10 1]
             [demo_locker 10 1 ''not_revealed'']))"
    by (simp add: demo_db_def)
  from complaint_has_submitted_entry [OF r] r m show ?thesis by blast
qed

subsection \<open>Reading a complaint\<close>

text \<open>
  C6. A caller whom no policy lets see the complaint with a given identifier gets
  \<open>NotFound\<close>, the same answer as on the store without that complaint, and a read never
  answers \<open>Unauthorized\<close>.
\<close>

theorem read_hidden_is_not_found:
  assumes "\<forall>c \<in> set (complaints d). c_id c = cid \<longrightarrow> \<not> complaints_select_policy d uid c"
  shows "read_complaint d uid cid = Inl NotFound \<and>
         read_complaint d uid cid =
           read_complaint (d\<lparr>complaints := filter (\<lambda>c. c_id c \<noteq> cid) (complaints d)\<rparr>) uid cid \<and>
         read_complaint d uid cid \<noteq> Inl Unauthorized"
proof -
  have a: "filter (\<lambda>c. c_id c = cid) (select_complaints d uid) = []"
    using assms by (auto simp: select_complaints_def filter_empty_conv)
  have b: "filter (\<lambda>c. c_id c = cid)
             (select_complaints (d\<lparr>complaints := filter (\<lambda>c. c_id c \<noteq> cid) (complaints d)\<rparr>) uid) = []"
    by (auto simp: select_complaints_def filter_empty_conv)
  show ?thesis
    by (simp add: read_complaint_def a b)
qed

text \<open>Student 4 asks for complaint 10 of student 1, and for an identifier that is not there.\<close>

theorem read_hidden_is_not_found_witness:
  "read_complaint (demo_db [demo_complaint 10 1 False submitted None] [demo_entry 50 10 1] []) 4 10 =
     Inl NotFound \<and>
   read_complaint (demo_db [demo_complaint 10 1 False submitted None] [demo_entry 50 10 1] []) 4 11 =
     Inl NotFound \<and>
   read_complaint (demo_db [demo_complaint 10 1 False submitted None] [demo_entry 50 10 1] []) 1 10 =
     Inr (demo_complaint 10 1 False submitted None)"
proof -
  have h: "\<forall>c \<in> set (complaints (demo_db [demo_complaint 10 1 False submitted None] [demo_entry 50 10 1] [])).
      c_id c = 10 \<longrightarrow>
      \<not> complaints_select_policy (demo_db [demo_complaint 10 1 False submitted None] [demo_entry 50 10 1] []) 4 c"
    by (simp add: demo_defs stmt_defs)
  have o: "read_complaint (demo_db [demo_complaint 10 1 False submitted None] [demo_entry 50 10 1] []) 4 11 =
     Inl NotFound"
    by (simp add: read_complaint_def select_complaints_def demo_defs stmt_defs)
  have m: "read_complaint (demo_db [demo_complaint 10 1 False submitted None] [demo_entry 50 10 1] []) 1 10 =
     Inr (demo_complaint 10 1 False submitted None)"
    by (simp add: read_complaint_def select_complaints_def demo_defs stmt_defs)
  from read_hidden_is_not_found [OF h] o m show ?thesis by blast
qed

subsection \<open>The identity locker of a complaint\<close>

text \<open>
  C8. Creating the identity locker of a complaint that already has one succeeds and
  leaves the store as it is; so does a second call after a first successful one.
\<close>

theorem create_identity_locker_idempotent:
  "(c_id NEW \<in> set (map l_complaint_id (identity_lockers d)) \<longrightarrow> create_identity_locker d NEW = Inr d) \<and>
   (\<forall>d'. create_identity_locker d NEW = Inr d' \<longrightarrow> create_identity_locker d' NEW = Inr d')"
  by (auto simp: create_identity_locker_def Let_def split: if_splits)

theorem create_identity_locker_idempotent_witness:
  "create_identity_locker (demo_db [demo_complaint 10 1 True submitted None] [] [])
     (demo_complaint 10 1 True submitted None) =
     Inr (demo_db [demo_complaint 10 1 True submitted None] [] [demo_locker 10 1 ''not_revealed'']) \<and>
   10 \<in> set (map l_complaint_id
     (identity_lockers (demo_db [demo_complaint 10 1 True submitted None] [] [demo_locker 10 1 ''not_revealed'']))) \<and>
   create_identity_locker
     (demo_db [demo_complaint 10 1 True submitted None] [] [demo_locker 10 1 ''not_revealed''])
     (demo_complaint 10 1 True submitted None) =
     Inr (demo_db [demo_complaint 10 1 True submitted None] [] [demo_locker 10 1 ''not_revealed''])"
proof -
  have f: "create_identity_locker (demo_db [demo_complaint 10 1 True submitted None] [] [])
     (demo_complaint 10 1 True submitted None) =
     Inr (demo_db [demo_complaint 10 1 True submitted None] [] [demo_locker 10 1 ''not_revealed''])"
    by (simp add: demo_defs stmt_defs)
  have k: "10 \<in> set (map l_complaint_id
     (identity_lockers (demo_db [demo_complaint 10 1 True submitted None] [] [demo_locker 10 1 ''not_revealed''])))"
    by (simp add: demo_defs)
  from create_identity_locker_idempotent
         [of "demo_complaint 10 1 True submitted None" "demo_db [demo_complaint 10 1 True submitted None] [] []"]
       f k
  show ?thesis by blast
qed

subsection \<open>The cap on active complaints\<close>

lemma active_count_append:
  "complaints d' = complaints d @ [NEW] \<Longrightarrow>
     active_count d' s =
       active_count d s +
       (if student_id NEW = s \<and> status NEW \<noteq> resolved \<and> withdrawn_at NEW = None then 1 else 0)"
  by (simp add: active_count_def)

lemma step_complaints_same:
  assumes "step d x = Inr d'" and "\<not> is_complaint_update x"
    and "\<And>uid tid now NEW. x \<noteq> InsertComplaint uid tid now NEW"
  shows "complaints d' = complaints d"
proof (cases x)
  case (InsertComplaint uid tid now NEW)
  with assms(3) [of uid tid now NEW] show ?thesis by simp
next
  case (UpdateComplaint uid cid NEW)
  with assms(2) show ?thesis by simp
next
  case (SignUp pid)
  with assms(1) show ?thesis
    by (auto simp: handle_new_user_def split: if_splits)
next
  case (InsertIdentityLocker uid l)
  with assms(1) show ?thesis
    by (auto simp: insert_identity_locker_def split: if_splits)
next
  case (UpdateIdentityLocker uid cid l)
  with assms(1) show ?thesis
    by (auto simp: update_identity_locker_def split: if_splits option.splits)
next
  case (DeleteIdentityLocker uid cid)
  with assms(1) show ?thesis
    by (auto simp: delete_identity_locker_def split: if_splits)
next
  case (InsertUserRole uid r)
  with assms(1) show ?thesis
    by (auto simp: insert_user_role_def split: if_splits)
next
  case (UpdateUserRole uid rid r)
  with assms(1) show ?thesis
    by (auto simp: update_user_role_def split: if_splits option.splits)
next
  case (DeleteUserRole uid rid)
  with assms(1) show ?thesis
    by (auto simp: delete_user_role_def split: if_splits)
qed

lemma step_active_limit:
  assumes "\<forall>s. active_count d s \<le> 3" and "step d x = Inr d'" and "\<not> is_complaint_update x"
  shows "\<forall>s. active_count d' s \<le> 3"
proof (cases "\<exists>uid tid now NEW. x = InsertComplaint uid tid now NEW")
  case True
  then obtain uid tid now NEW where x: "x = InsertComplaint uid tid now NEW" by blast
  with assms(2) have r: "insert_complaint d uid tid now NEW = Inr d'" by simp
  note a = active_count_append [OF insert_complaint_result(1) [OF r]]
  note b = insert_complaint_checks(1) [OF r]
  show ?thesis
  proof
    fix s
    from assms(1) have c: "active_count d s \<le> 3" by blast
    show "active_count d' s \<le> 3"
    proof (cases "student_id NEW = s \<and> status NEW \<noteq> resolved \<and> withdrawn_at NEW = None")
      case True
      with a [of s] b show ?thesis by simp
    next
      case False
      with a [of s] c show ?thesis by simp
    qed
  qed
next
  case False
  then have "\<And>uid tid now NEW. x \<noteq> InsertComplaint uid tid now NEW" by blast
  from step_complaints_same [OF assms(2,3) this] assms(1) show ?thesis
    by (simp add: active_count_def)
qed

lemma run_active_limit:
  "\<forall>s. active_count d s \<le> 3 \<Longrightarrow> \<forall>x \<in> set xs. \<not> is_complaint_update x \<Longrightarrow> run d xs = Inr d' \<Longrightarrow>
     \<forall>s. active_count d' s \<le> 3"
proof (induction xs arbitrary: d)
  case Nil
  then show ?case by simp
next
  case (Cons x xs)
  from Cons.prems(3) obtain d1 where a: "step d x = Inr d1" and b: "run d1 xs = Inr d'"
    by (auto split: sum.splits)
  from Cons.prems(2) have n: "\<not> is_complaint_update x" "\<forall>y \<in> set xs. \<not> is_complaint_update y"
    by simp_all
  from step_active_limit [OF Cons.prems(1) a n(1)] have "\<forall>s. active_count d1 s \<le> 3" .
  from Cons.IH [OF this n(2) b] show ?case .
qed

lemma on_anonymous_complaint_succeeds:
  assumes "c_id NEW \<in> set (map c_id (complaints d))" and "student_id NEW \<in> set (profiles d)"
  shows "\<exists>d2. on_anonymous_complaint d NEW = Inr d2"
  using assms
  by (simp add: on_anonymous_complaint_def create_identity_locker_def Let_def locker_fk_def opt_ref_def)

lemma add_complaint_timeline_succeeds:
  assumes "c_id NEW \<in> set (map c_id (complaints d))" and "student_id NEW \<in> set (profiles d)"
    and "tid \<notin> set (map t_id (complaint_timeline d))"
  shows "\<exists>d'. add_complaint_timeline tid now d NEW = Inr d'"
  using assms
  by (simp add: add_complaint_timeline_def Let_def timeline_fk_def opt_ref_def)

lemma on_anonymous_complaint_error:
  "on_anonymous_complaint d NEW = Inl e \<Longrightarrow> e = ForeignKeyViolation"
  by (simp add: on_anonymous_complaint_def create_identity_locker_def Let_def split: if_splits)

lemma add_complaint_timeline_error:
  "add_complaint_timeline tid now d NEW = Inl e \<Longrightarrow> e = UniqueViolation \<or> e = ForeignKeyViolation"
  by (simp add: add_complaint_timeline_def Let_def split: if_splits)

lemma insert_complaint_unfold:
  assumes "active_count d (student_id NEW) < 3"
  shows "insert_complaint d uid tid now NEW =
          (if \<not> complaints_insert_check d uid NEW then Inl Unauthorized
          else if \<not> rating_check NEW then Inl CheckViolation
          else if c_id NEW \<in> set (map c_id (complaints d)) then Inl UniqueViolation
          else if \<not> complaint_fk d NEW then Inl ForeignKeyViolation
          else
            (case on_anonymous_complaint (d\<lparr>complaints := complaints d @ [NEW]\<rparr>) NEW of
               Inl e \<Rightarrow> Inl e
             | Inr d2 \<Rightarrow> add_complaint_timeline tid now d2 NEW))"
  using assms by (simp add: insert_complaint_def check_active_complaint_limit_def)

lemma insert_complaint_not_limit:
  assumes "active_count d (student_id NEW) < 3"
  shows "insert_complaint d uid tid now NEW \<noteq> Inl LimitExceeded"
proof
  assume e: "insert_complaint d uid tid now NEW = Inl LimitExceeded"
  show False
  proof (cases "on_anonymous_complaint (d\<lparr>complaints := complaints d @ [NEW]\<rparr>) NEW")
    case (Inl e1)
    from on_anonymous_complaint_error [OF Inl] Inl e show False
      unfolding insert_complaint_unfold [OF assms] by (simp split: if_splits)
  next
    case (Inr d2)
    with e have "add_complaint_timeline tid now d2 NEW = Inl LimitExceeded"
      unfolding insert_complaint_unfold [OF assms] by (simp split: if_splits)
    from add_complaint_timeline_error [OF this] show False by simp
  qed
qed

lemma insert_complaint_succeeds:
  assumes "active_count d (student_id NEW) < 3" and "uid = student_id NEW" and "rating_check NEW"
    and "c_id NEW \<notin> set (map c_id (complaints d))" and "complaint_fk d NEW"
    and "tid \<notin> set (map t_id (complaint_timeline d))"
  shows "\<exists>d'. insert_complaint d uid tid now NEW = Inr d'"
proof -
  let ?d1 = "d\<lparr>complaints := complaints d @ [NEW]\<rparr>"
  from assms(5) have p: "student_id NEW \<in> set (profiles d)" by (simp add: complaint_fk_def)
  have "c_id NEW \<in> set (map c_id (complaints ?d1))" "student_id NEW \<in> set (profiles ?d1)"
    using p by simp_all
  from on_anonymous_complaint_succeeds [OF this]
  obtain d2 where a: "on_anonymous_complaint ?d1 NEW = Inr d2" by blast
  from on_anonymous_complaint_same [OF a]
  have "c_id NEW \<in> set (map c_id (complaints d2))" "student_id NEW \<in> set (profiles d2)"
    "tid \<notin> set (map t_id (complaint_timeline d2))"
    using p assms(6) by simp_all
  from add_complaint_timeline_succeeds [OF this]
  obtain d' where b: "add_complaint_timeline tid now d2 NEW = Inr d'" by blast
  have "insert_complaint d uid tid now NEW = Inr d'"
    unfolding insert_complaint_unfold [OF assms(1)]
    using assms(2-5) a b by (simp add: complaints_insert_check_def students_can_create_def)
  then show ?thesis by blast
qed

text \<open>
  The insert path keeps the cap, in every state: an insert for a submitter who already
  has 3 or more active complaints fails with \<open>LimitExceeded\<close>; with fewer it never
  fails with that error, and it succeeds when the caller is the submitter and the row
  respects the constraints of the table, leaving at most 3.
\<close>

lemma insert_limit_any_state:
  "(3 \<le> active_count d (student_id NEW) \<longrightarrow>
      insert_complaint d uid tid now NEW = Inl LimitExceeded) \<and>
   (active_count d (student_id NEW) < 3 \<longrightarrow>
      insert_complaint d uid tid now NEW \<noteq> Inl LimitExceeded \<and>
      (uid = student_id NEW \<and> rating_check NEW \<and> c_id NEW \<notin> set (map c_id (complaints d)) \<and>
       complaint_fk d NEW \<and> tid \<notin> set (map t_id (complaint_timeline d)) \<longrightarrow>
         (\<exists>d'. insert_complaint d uid tid now NEW = Inr d' \<and>
               active_count d' (student_id NEW) \<le> 3)))"
proof (intro conjI impI)
  assume "3 \<le> active_count d (student_id NEW)"
  then show "insert_complaint d uid tid now NEW = Inl LimitExceeded"
    by (simp add: insert_complaint_def check_active_complaint_limit_def)
next
  assume "active_count d (student_id NEW) < 3"
  then show "insert_complaint d uid tid now NEW \<noteq> Inl LimitExceeded"
    by (rule insert_complaint_not_limit)
next
  assume lt: "active_count d (student_id NEW) < 3"
    and ok: "uid = student_id NEW \<and> rating_check NEW \<and> c_id NEW \<notin> set (map c_id (complaints d)) \<and>
             complaint_fk d NEW \<and> tid \<notin> set (map t_id (complaint_timeline d))"
  from insert_complaint_succeeds [of d NEW uid tid now] lt ok
  obtain d' where r: "insert_complaint d uid tid now NEW = Inr d'" by blast
  have "active_count d' (student_id NEW) \<le> active_count d (student_id NEW) + 1"
    unfolding active_count_append [OF insert_complaint_result(1) [OF r], of "student_id NEW"]
    by simp
  with lt have "active_count d' (student_id NEW) \<le> 3" by simp
  with r show "\<exists>d'. insert_complaint d uid tid now NEW = Inr d' \<and>
                     active_count d' (student_id NEW) \<le> 3" by blast
qed

text \<open>
  C1. Every submitter should hold at most 3 complaints that are neither resolved nor
  withdrawn, in every reachable state. The store breaks this at the following history:
  student 1 submits complaint 10, admin 3 resolves it, the student submits complaints
  11, 12 and 13 and then writes complaint 10 back to \<open>submitted\<close>. The limit trigger
  fires on \<open>INSERT\<close> only, every statement succeeds, and the student holds four active
  complaints.
\<close>

theorem active_limit_broken_by_update:
  "run demo_init
    [InsertComplaint 1 50 0 (demo_complaint 10 1 False submitted None),
     UpdateComplaint 3 10 (demo_complaint 10 1 False resolved None),
     InsertComplaint 1 51 0 (demo_complaint 11 1 False submitted None),
     InsertComplaint 1 52 0 (demo_complaint 12 1 False submitted None),
     InsertComplaint 1 53 0 (demo_complaint 13 1 False submitted None),
     UpdateComplaint 1 10 (demo_complaint 10 1 False submitted None)] =
    Inr (demo_db [demo_complaint 10 1 False submitted None, demo_complaint 11 1 False submitted None,
                  demo_complaint 12 1 False submitted None, demo_complaint 13 1 False submitted None]
           [demo_entry 50 10 1, demo_entry 51 11 1, demo_entry 52 12 1, demo_entry 53 13 1] []) \<and>
   reachable (demo_db [demo_complaint 10 1 False submitted None, demo_complaint 11 1 False submitted None,
                       demo_complaint 12 1 False submitted None, demo_complaint 13 1 False submitted None]
                [demo_entry 50 10 1, demo_entry 51 11 1, demo_entry 52 12 1, demo_entry 53 13 1] []) \<and>
   active_count (demo_db [demo_complaint 10 1 False submitted None, demo_complaint 11 1 False submitted None,
                       demo_complaint 12 1 False submitted None, demo_complaint 13 1 False submitted None]
                [demo_entry 50 10 1, demo_entry 51 11 1, demo_entry 52 12 1, demo_entry 53 13 1] []) 1 = 4"
proof -
  have r: "run demo_init
    [InsertComplaint 1 50 0 (demo_complaint 10 1 False submitted None),
     UpdateComplaint 3 10 (demo_complaint 10 1 False resolved None),
     InsertComplaint 1 51 0 (demo_complaint 11 1 False submitted None),
     InsertComplaint 1 52 0 (demo_complaint 12 1 False submitted None),
     InsertComplaint 1 53 0 (demo_complaint 13 1 False submitted None),
     UpdateComplaint 1 10 (demo_complaint 10 1 False submitted None)] =
    Inr (demo_db [demo_complaint 10 1 False submitted None, demo_complaint 11 1 False submitted None,
                  demo_complaint 12 1 False submitted None, demo_complaint 13 1 False submitted None]
           [demo_entry 50 10 1, demo_entry 51 11 1, demo_entry 52 12 1, demo_entry 53 13 1] [])"
    by (simp add: demo_defs stmt_defs)
  have a: "active_count (demo_db [demo_complaint 10 1 False submitted None, demo_complaint 11 1 False submitted None,
                       demo_complaint 12 1 False submitted None, demo_complaint 13 1 False submitted None]
                [demo_entry 50 10 1, demo_entry 51 11 1, demo_entry 52 12 1, demo_entry 53 13 1] []) 1 = 4"
    by (simp add: demo_defs active_count_def)
  from run_reachable [OF reachable.init [OF initial_demo_init] r] r a show ?thesis by simp
qed

lemma run_timeline_mono:
  "run d xs = Inr d' \<Longrightarrow> set (complaint_timeline d) \<subseteq> set (complaint_timeline d')"
proof (induction xs arbitrary: d)
  case Nil
  then show ?case by simp
next
  case (Cons x xs)
  then obtain d1 where a: "step d x = Inr d1" and b: "run d1 xs = Inr d'"
    by (auto split: sum.splits)
  from step_timeline_mono [OF a] Cons.IH [OF b] show ?case by blast
qed

subsection \<open>The author of the creation entry\<close>

text \<open>
  C10. The timeline entry written when a complaint with the anonymity flag is inserted
  carries the complaint's \<open>student_id\<close> as \<open>updated_by\<close>, and in every later state
  an admin, and a staff member to whom the complaint is assigned, reads that entry.
\<close>

theorem creation_entry_exposes_submitter:
  assumes "insert_complaint d uid tid now NEW = Inr d'" and "is_anonymous NEW"
  shows "\<lparr>t_id = tid, complaint_id = c_id NEW, updated_by = Some (student_id NEW),
          message = ''Complaint submitted'', t_created_at = now\<rparr> \<in> set (complaint_timeline d') \<and>
         (\<forall>xs d2 v. run d' xs = Inr d2 \<longrightarrow>
            (has_role d2 v admin \<or>
             (has_role d2 v staff \<and>
              (\<exists>c \<in> set (complaints d2). c_id c = c_id NEW \<and> staff_assigned c = Some v))) \<longrightarrow>
            \<lparr>t_id = tid, complaint_id = c_id NEW, updated_by = Some (student_id NEW),
             message = ''Complaint submitted'', t_created_at = now\<rparr> \<in> set (select_timeline d2 v))"
proof -
  let ?e = "\<lparr>t_id = tid, complaint_id = c_id NEW, updated_by = Some (student_id NEW),
             message = ''Complaint submitted'', t_created_at = now\<rparr>"
  have m: "?e \<in> set (complaint_timeline d')"
    using insert_complaint_result(2) [OF assms(1)] by simp
  have v: "?e \<in> set (select_timeline d2 v)"
    if r: "run d' xs = Inr d2"
      and p: "has_role d2 v admin \<or>
               (has_role d2 v staff \<and>
                (\<exists>c \<in> set (complaints d2). c_id c = c_id NEW \<and> staff_assigned c = Some v))"
    for xs d2 v
  proof -
    from run_timeline_mono [OF r] m have "?e \<in> set (complaint_timeline d2)" by blast
    moreover from p have "timeline_select_policy d2 v ?e"
    proof (elim disjE conjE bexE)
      assume "has_role d2 v admin"
      then show ?thesis
        by (simp add: timeline_select_policy_def admin_can_view_timelines_def)
    next
      fix c
      assume s: "has_role d2 v staff" and c: "c \<in> set (complaints d2)" "c_id c = c_id NEW"
        "staff_assigned c = Some v"
      then have "c \<in> set (filter (\<lambda>c. staff_assigned c = Some v) (select_complaints d2 v))"
        by (simp add: select_complaints_def complaints_select_policy_def staff_can_view_assigned_def)
      then have "c_id c \<in> set (map c_id (filter (\<lambda>c. staff_assigned c = Some v) (select_complaints d2 v)))"
        by (simp only: set_map) (rule imageI)
      with s c(2) show ?thesis
        by (simp add: timeline_select_policy_def staff_can_view_timeline_def)
    qed
    ultimately show ?thesis by (simp add: select_timeline_def)
  qed
  from m v show ?thesis by blast
qed

text \<open>Student 1 submits anonymously, admin 3 assigns staff member 2, who then reads the
  timeline.\<close>

theorem creation_entry_exposes_submitter_witness:
  "insert_complaint demo_init 1 50 0 (demo_complaint 10 1 True submitted None) =
     Inr (demo_db [demo_complaint 10 1 True submitted None] [demo_entry 50 10 1]
            [demo_locker 10 1 ''not_revealed'']) \<and>
   run (demo_db [demo_complaint 10 1 True submitted None] [demo_entry 50 10 1]
          [demo_locker 10 1 ''not_revealed''])
       [UpdateComplaint 3 10 (demo_complaint 10 1 True submitted (Some 2))] =
     Inr (demo_db [demo_complaint 10 1 True submitted (Some 2)] [demo_entry 50 10 1]
            [demo_locker 10 1 ''not_revealed'']) \<and>
   demo_entry 50 10 1 \<in>
     set (select_timeline (demo_db [demo_complaint 10 1 True submitted (Some 2)] [demo_entry 50 10 1]
            [demo_locker 10 1 ''not_revealed'']) 2) \<and>
   updated_by (demo_entry 50 10 1) = Some 1"
proof -
  have i: "insert_complaint demo_init 1 50 0 (demo_complaint 10 1 True submitted None) =
     Inr (demo_db [demo_complaint 10 1 True submitted None] [demo_entry 50 10 1]
            [demo_locker 10 1 ''not_revealed''])"
    by (simp add: demo_defs stmt_defs)
  have a: "is_anonymous (demo_complaint 10 1 True submitted None)"
    by (simp add: demo_defs)
  have r: "run (demo_db [demo_complaint 10 1 True submitted None] [demo_entry 50 10 1]
          [demo_locker 10 1 ''not_revealed''])
       [UpdateComplaint 3 10 (demo_complaint 10 1 True submitted (Some 2))] =
     Inr (demo_db [demo_complaint 10 1 True submitted (Some 2)] [demo_entry 50 10 1]
            [demo_locker 10 1 ''not_revealed''])"
    by (simp add: demo_defs stmt_defs)
  have p: "has_role (demo_db [demo_complaint 10 1 True submitted (Some 2)] [demo_entry 50 10 1]
            [demo_locker 10 1 ''not_revealed'']) 2 staff \<and>
      (\<exists>c \<in> set (complaints (demo_db [demo_complaint 10 1 True submitted (Some 2)] [demo_entry 50 10 1]
            [demo_locker 10 1 ''not_revealed''])).
         c_id c = c_id (demo_complaint 10 1 True submitted None) \<and> staff_assigned c = Some 2)"
    by (simp add: demo_defs has_role_def)
  have e: "\<lparr>t_id = 50, complaint_id = c_id (demo_complaint 10 1 True submitted None),
            updated_by = Some (student_id (demo_complaint 10 1 True submitted None)),
            message = ''Complaint submitted'', t_created_at = 0\<rparr> = demo_entry 50 10 1"
    by (simp add: demo_defs)
  have u: "updated_by (demo_entry 50 10 1) = Some 1" by (simp add: demo_defs)
  from creation_entry_exposes_submitter [OF i a] r p
  have "\<lparr>t_id = 50, complaint_id = c_id (demo_complaint 10 1 True submitted None),
            updated_by = Some (student_id (demo_complaint 10 1 True submitted None)),
            message = ''Complaint submitted'', t_created_at = 0\<rparr> \<in>
     set (select_timeline (demo_db [demo_complaint 10 1 True submitted (Some 2)] [demo_entry 50 10 1]
            [demo_locker 10 1 ''not_revealed'']) 2)"
    by blast
  with i r u show ?thesis unfolding e by simp
qed

subsection \<open>Identity lockers and anonymity\<close>




lemma non_admin_keeps_lockers:
  assumes "step d x = Inr d'" and "\<forall>uid. issued_by x = Some uid \<longrightarrow> \<not> has_role d uid admin"
  shows "\<exists>ls. identity_lockers d' = identity_lockers d @ ls \<and>
              (\<forall>l \<in> set ls. reveal_status l = ''not_revealed'')"
proof (cases x)
  case (SignUp pid)
  with assms(1) have "identity_lockers d' = identity_lockers d @ []"
    by (auto simp: handle_new_user_def split: if_splits)
  then show ?thesis by (intro exI [of _ "[]"]) simp
next
  case (InsertComplaint uid tid now NEW)
  with assms(1) have r: "insert_complaint d uid tid now NEW = Inr d'" by simp
  show ?thesis
  proof (cases "is_anonymous NEW \<and> c_id NEW \<notin> set (map l_complaint_id (identity_lockers d))")
    case True
    with insert_complaint_lockers [OF r] show ?thesis
      by (intro exI [of _ "[\<lparr>l_complaint_id = c_id NEW, real_student_id = student_id NEW,
               reveal_status = ''not_revealed'', reveal_reason = None,
               reveal_requested_by = None, revealed_at = None\<rparr>]"]) simp
  next
    case False
    with insert_complaint_lockers [OF r] show ?thesis
      by (intro exI [of _ "[]"]) simp
  qed
next
  case (UpdateComplaint uid cid NEW)
  with assms(1) have r: "update_complaint d uid cid NEW = Inr d'" by simp
  from update_complaint_result [OF r] have "identity_lockers d' = identity_lockers d @ []" by auto
  then show ?thesis by (intro exI [of _ "[]"]) simp
next
  case (InsertIdentityLocker uid l)
  with assms(2) have "\<not> has_role d uid admin" by simp
  with InsertIdentityLocker assms(1) show ?thesis
    by (simp add: insert_identity_locker_def admin_can_manage_lockers_def)
next
  case (UpdateIdentityLocker uid cid l)
  with assms(2) have "\<not> has_role d uid admin" by simp
  with UpdateIdentityLocker assms(1) have "identity_lockers d' = identity_lockers d @ []"
    by (auto simp: update_identity_locker_def admin_can_manage_lockers_def split: option.splits)
  then show ?thesis by (intro exI [of _ "[]"]) simp
next
  case (DeleteIdentityLocker uid cid)
  with assms(2) have "\<not> has_role d uid admin" by simp
  with DeleteIdentityLocker assms(1) have "identity_lockers d' = identity_lockers d @ []"
    by (auto simp: delete_identity_locker_def admin_can_manage_lockers_def)
  then show ?thesis by (intro exI [of _ "[]"]) simp
next
  case (InsertUserRole uid r)
  with assms(1) have "identity_lockers d' = identity_lockers d @ []"
    by (auto simp: insert_user_role_def split: if_splits)
  then show ?thesis by (intro exI [of _ "[]"]) simp
next
  case (UpdateUserRole uid rid r)
  with assms(1) have "identity_lockers d' = identity_lockers d @ []"
    by (auto simp: update_user_role_def split: if_splits option.splits)
  then show ?thesis by (intro exI [of _ "[]"]) simp
next
  case (DeleteUserRole uid rid)
  with assms(1) have "identity_lockers d' = identity_lockers d @ []"
    by (auto simp: delete_user_role_def split: if_splits)
  then show ?thesis by (intro exI [of _ "[]"]) simp
qed

lemma find_distinct_locker:
  "distinct (map l_complaint_id xs) \<Longrightarrow> l \<in> set xs \<Longrightarrow>
     find (\<lambda>x. l_complaint_id x = l_complaint_id l) xs = Some l"
  by (induction xs) (auto simp: image_iff)

lemma admin_writes_any_reveal_status:
  assumes "reachable d" and "has_role d uid admin" and "l \<in> set (identity_lockers d)"
  shows "update_identity_locker d uid (l_complaint_id l) (l\<lparr>reveal_status := s\<rparr>) =
           Inr (d\<lparr>identity_lockers :=
                  map (\<lambda>x. if l_complaint_id x = l_complaint_id l then l\<lparr>reveal_status := s\<rparr> else x)
                    (identity_lockers d)\<rparr>)"
proof -
  from assms(1) have ok: "lockers_ok d" by (rule reachable_lockers_ok)
  then have "distinct (map l_complaint_id (identity_lockers d))" by (simp add: lockers_ok_def)
  from find_distinct_locker [OF this assms(3)]
  have f: "find (\<lambda>x. l_complaint_id x = l_complaint_id l) (identity_lockers d) = Some l" .
  from ok assms(3) have "locker_fk d l" by (simp add: lockers_ok_def)
  then have fk: "locker_fk d (l\<lparr>reveal_status := s\<rparr>)" by (simp add: locker_fk_def)
  show ?thesis
    using f fk assms(2) by (simp add: update_identity_locker_def admin_can_manage_lockers_def)
qed

lemma insert_complaint_new_lockers:
  assumes "insert_complaint d uid tid now NEW = Inr d'"
  shows "\<exists>ls. identity_lockers d' = identity_lockers d @ ls \<and>
              (\<forall>l \<in> set ls. reveal_status l = ''not_revealed'' \<and> l_complaint_id l = c_id NEW)"
proof (cases "is_anonymous NEW \<and> c_id NEW \<notin> set (map l_complaint_id (identity_lockers d))")
  case True
  with insert_complaint_lockers [OF assms] show ?thesis
    by (intro exI [of _ "[\<lparr>l_complaint_id = c_id NEW, real_student_id = student_id NEW,
             reveal_status = ''not_revealed'', reveal_reason = None,
             reveal_requested_by = None, revealed_at = None\<rparr>]"]) simp
next
  case False
  with insert_complaint_lockers [OF assms] show ?thesis
    by (intro exI [of _ "[]"]) simp
qed

lemma non_admin_locker_statements:
  assumes "\<not> has_role d uid admin"
  shows "insert_identity_locker d uid l = Inl Unauthorized"
    and "update_identity_locker d uid cid l = Inr d"
    and "delete_identity_locker d uid cid = Inr d"
  using assms
  by (simp_all add: insert_identity_locker_def update_identity_locker_def
        delete_identity_locker_def admin_can_manage_lockers_def split: option.splits)

lemma admin_inserts_any_locker:
  assumes "has_role d uid admin" and "l_complaint_id l \<notin> set (map l_complaint_id (identity_lockers d))"
    and "locker_fk d l"
  shows "insert_identity_locker d uid l = Inr (d\<lparr>identity_lockers := identity_lockers d @ [l]\<rparr>)"
  using assms by (simp add: insert_identity_locker_def admin_can_manage_lockers_def)

text \<open>
  C5 (as amended). In a reachable state:
  \<^item> the locker that the insert of a complaint creates has the reveal status
    \<open>not_revealed\<close>, whoever inserts the complaint;
  \<^item> a caller without the admin role cannot write a locker: an insert into the lockers
    fails with \<open>Unauthorized\<close>, an update or a delete leaves the store as it is, and
    any statement of such a caller that succeeds keeps every locker as it was, reveal
    status included, adding at most lockers with the status \<open>not_revealed\<close>;
  \<^item> an admin's update writes any reveal status over the present one and succeeds, and
    an admin's insert stores a locker with any reveal status, given a fresh key and
    valid references.
\<close>

theorem reveal_status_changed_by_admin_only:
  assumes "reachable d"
  shows "(\<forall>uid tid now NEW d'. insert_complaint d uid tid now NEW = Inr d' \<longrightarrow>
            (\<exists>ls. identity_lockers d' = identity_lockers d @ ls \<and>
                  (\<forall>l \<in> set ls. reveal_status l = ''not_revealed'' \<and> l_complaint_id l = c_id NEW))) \<and>
         (\<forall>uid l cid. \<not> has_role d uid admin \<longrightarrow>
            insert_identity_locker d uid l = Inl Unauthorized \<and>
            update_identity_locker d uid cid l = Inr d \<and>
            delete_identity_locker d uid cid = Inr d) \<and>
         (\<forall>x d'. step d x = Inr d' \<longrightarrow>
            (\<forall>uid. issued_by x = Some uid \<longrightarrow> \<not> has_role d uid admin) \<longrightarrow>
            (\<exists>ls. identity_lockers d' = identity_lockers d @ ls \<and>
                  (\<forall>l \<in> set ls. reveal_status l = ''not_revealed''))) \<and>
         (\<forall>uid l s. has_role d uid admin \<longrightarrow> l \<in> set (identity_lockers d) \<longrightarrow>
            update_identity_locker d uid (l_complaint_id l) (l\<lparr>reveal_status := s\<rparr>) =
              Inr (d\<lparr>identity_lockers :=
                     map (\<lambda>x. if l_complaint_id x = l_complaint_id l then l\<lparr>reveal_status := s\<rparr> else x)
                       (identity_lockers d)\<rparr>)) \<and>
         (\<forall>uid l. has_role d uid admin \<longrightarrow>
            l_complaint_id l \<notin> set (map l_complaint_id (identity_lockers d)) \<longrightarrow> locker_fk d l \<longrightarrow>
            insert_identity_locker d uid l = Inr (d\<lparr>identity_lockers := identity_lockers d @ [l]\<rparr>))"
proof (intro conjI)
  show "\<forall>uid tid now NEW d'. insert_complaint d uid tid now NEW = Inr d' \<longrightarrow>
            (\<exists>ls. identity_lockers d' = identity_lockers d @ ls \<and>
                  (\<forall>l \<in> set ls. reveal_status l = ''not_revealed'' \<and> l_complaint_id l = c_id NEW))"
    using insert_complaint_new_lockers by blast
next
  show "\<forall>uid l cid. \<not> has_role d uid admin \<longrightarrow>
            insert_identity_locker d uid l = Inl Unauthorized \<and>
            update_identity_locker d uid cid l = Inr d \<and>
            delete_identity_locker d uid cid = Inr d"
    using non_admin_locker_statements by blast
next
  show "\<forall>x d'. step d x = Inr d' \<longrightarrow>
            (\<forall>uid. issued_by x = Some uid \<longrightarrow> \<not> has_role d uid admin) \<longrightarrow>
            (\<exists>ls. identity_lockers d' = identity_lockers d @ ls \<and>
                  (\<forall>l \<in> set ls. reveal_status l = ''not_revealed''))"
    using non_admin_keeps_lockers by blast
next
  show "\<forall>uid l s. has_role d uid admin \<longrightarrow> l \<in> set (identity_lockers d) \<longrightarrow>
            update_identity_locker d uid (l_complaint_id l) (l\<lparr>reveal_status := s\<rparr>) =
              Inr (d\<lparr>identity_lockers :=
                     map (\<lambda>x. if l_complaint_id x = l_complaint_id l then l\<lparr>reveal_status := s\<rparr> else x)
                       (identity_lockers d)\<rparr>)"
    using admin_writes_any_reveal_status [OF assms] by blast
next
  show "\<forall>uid l. has_role d uid admin \<longrightarrow>
            l_complaint_id l \<notin> set (map l_complaint_id (identity_lockers d)) \<longrightarrow> locker_fk d l \<longrightarrow>
            insert_identity_locker d uid l = Inr (d\<lparr>identity_lockers := identity_lockers d @ [l]\<rparr>)"
    using admin_inserts_any_locker by blast
qed

text \<open>
  Admin 3 writes the status of the locker of complaint 10 from \<open>not_revealed\<close>
  straight to \<open>revealed\<close> and then back; both updates succeed.
\<close>

theorem reveal_status_not_monotonic:
  "reachable (demo_db [demo_complaint 10 1 True submitted None] [demo_entry 50 10 1]
                [demo_locker 10 1 ''not_revealed'']) \<and>
   step (demo_db [demo_complaint 10 1 True submitted None] [demo_entry 50 10 1]
           [demo_locker 10 1 ''not_revealed''])
        (UpdateIdentityLocker 3 10 (demo_locker 10 1 ''revealed'')) =
     Inr (demo_db [demo_complaint 10 1 True submitted None] [demo_entry 50 10 1]
            [demo_locker 10 1 ''revealed'']) \<and>
   step (demo_db [demo_complaint 10 1 True submitted None] [demo_entry 50 10 1]
           [demo_locker 10 1 ''revealed''])
        (UpdateIdentityLocker 3 10 (demo_locker 10 1 ''not_revealed'')) =
     Inr (demo_db [demo_complaint 10 1 True submitted None] [demo_entry 50 10 1]
            [demo_locker 10 1 ''not_revealed''])"
proof -
  have s: "step demo_init (InsertComplaint 1 50 0 (demo_complaint 10 1 True submitted None)) =
      Inr (demo_db [demo_complaint 10 1 True submitted None] [demo_entry 50 10 1]
             [demo_locker 10 1 ''not_revealed''])"
    by (simp add: demo_defs stmt_defs)
  have a: "step (demo_db [demo_complaint 10 1 True submitted None] [demo_entry 50 10 1]
           [demo_locker 10 1 ''not_revealed''])
        (UpdateIdentityLocker 3 10 (demo_locker 10 1 ''revealed'')) =
     Inr (demo_db [demo_complaint 10 1 True submitted None] [demo_entry 50 10 1]
            [demo_locker 10 1 ''revealed''])"
    by (simp add: demo_defs stmt_defs)
  have b: "step (demo_db [demo_complaint 10 1 True submitted None] [demo_entry 50 10 1]
           [demo_locker 10 1 ''revealed''])
        (UpdateIdentityLocker 3 10 (demo_locker 10 1 ''not_revealed'')) =
     Inr (demo_db [demo_complaint 10 1 True submitted None] [demo_entry 50 10 1]
            [demo_locker 10 1 ''not_revealed''])"
    by (simp add: demo_defs stmt_defs)
  from reachable.step [OF reachable.init [OF initial_demo_init] s] a b show ?thesis by simp
qed

text \<open>
  On the store with the anonymous complaint 10: staff member 2 tries to write
  \<open>revealed\<close> and no row is updated, and the insert of a locker by the same caller is
  refused; admin 3 writes \<open>revealed\<close> and the status is stored.
\<close>

theorem reveal_status_changed_by_admin_only_witness:
  "step (demo_db [demo_complaint 10 1 True submitted None] [demo_entry 50 10 1]
           [demo_locker 10 1 ''not_revealed''])
        (UpdateIdentityLocker 2 10 (demo_locker 10 1 ''revealed'')) =
     Inr (demo_db [demo_complaint 10 1 True submitted None] [demo_entry 50 10 1]
            [demo_locker 10 1 ''not_revealed'']) \<and>
   insert_identity_locker (demo_db [demo_complaint 10 1 True submitted None] [demo_entry 50 10 1]
           [demo_locker 10 1 ''not_revealed'']) 2 (demo_locker 10 1 ''revealed'') = Inl Unauthorized \<and>
   (\<exists>ls. identity_lockers (demo_db [demo_complaint 10 1 True submitted None] [demo_entry 50 10 1]
            [demo_locker 10 1 ''not_revealed'']) =
         identity_lockers (demo_db [demo_complaint 10 1 True submitted None] [demo_entry 50 10 1]
            [demo_locker 10 1 ''not_revealed'']) @ ls) \<and>
   update_identity_locker (demo_db [demo_complaint 10 1 True submitted None] [demo_entry 50 10 1]
           [demo_locker 10 1 ''not_revealed'']) 3 10 (demo_locker 10 1 ''revealed'') =
     Inr (demo_db [demo_complaint 10 1 True submitted None] [demo_entry 50 10 1]
            [demo_locker 10 1 ''revealed''])"
proof -
  let ?d = "demo_db [demo_complaint 10 1 True submitted None] [demo_entry 50 10 1]
           [demo_locker 10 1 ''not_revealed'']"
  let ?l = "demo_locker 10 1 ''not_revealed''"
  have i: "step demo_init (InsertComplaint 1 50 0 (demo_complaint 10 1 True submitted None)) = Inr ?d"
    by (simp add: demo_defs stmt_defs)
  have r: "reachable ?d"
    by (rule reachable.step [OF reachable.init [OF initial_demo_init] i])
  have s: "step ?d (UpdateIdentityLocker 2 10 (demo_locker 10 1 ''revealed'')) = Inr ?d"
    by (simp add: demo_defs stmt_defs)
  have n: "\<forall>uid. issued_by (UpdateIdentityLocker 2 10 (demo_locker 10 1 ''revealed'')) = Some uid \<longrightarrow>
      \<not> has_role ?d uid admin"
    by (simp add: demo_defs has_role_def)
  have n2: "\<not> has_role ?d 2 admin" by (simp add: demo_defs has_role_def)
  have a: "has_role ?d 3 admin" by (simp add: demo_defs has_role_def)
  have m: "?l \<in> set (identity_lockers ?d)" by (simp add: demo_defs)
  have k: "l_complaint_id ?l = 10" by (simp add: demo_defs)
  have e: "?l\<lparr>reveal_status := ''revealed''\<rparr> = demo_locker 10 1 ''revealed''"
    by (simp add: demo_defs)
  have g: "?d\<lparr>identity_lockers :=
              map (\<lambda>x. if l_complaint_id x = 10 then demo_locker 10 1 ''revealed'' else x)
                (identity_lockers ?d)\<rparr> =
        demo_db [demo_complaint 10 1 True submitted None] [demo_entry 50 10 1]
          [demo_locker 10 1 ''revealed'']"
    by (simp add: demo_defs)
  note t = reveal_status_changed_by_admin_only [OF r]
  from t s n have p: "\<exists>ls. identity_lockers ?d = identity_lockers ?d @ ls" by blast
  from t n2 have u: "insert_identity_locker ?d 2 (demo_locker 10 1 ''revealed'') = Inl Unauthorized"
    by blast
  from t a m
  have "update_identity_locker ?d 3 (l_complaint_id ?l) (?l\<lparr>reveal_status := ''revealed''\<rparr>) =
     Inr (?d\<lparr>identity_lockers :=
              map (\<lambda>x. if l_complaint_id x = l_complaint_id ?l then ?l\<lparr>reveal_status := ''revealed''\<rparr> else x)
                (identity_lockers ?d)\<rparr>)"
    by blast
  then have q: "update_identity_locker ?d 3 10 (demo_locker 10 1 ''revealed'') =
     Inr (demo_db [demo_complaint 10 1 True submitted None] [demo_entry 50 10 1]
            [demo_locker 10 1 ''revealed''])"
    unfolding k e g .
  from s u p q show ?thesis by blast
qed

text \<open>
  C3. The store at the input where the claim fails: student 1 submits complaint 10
  with the anonymity flag, admin 3 assigns it to staff member 2. The staff member reads
  no identity locker, but the complaint row read under the staff policy carries
  \<open>student_id = 1\<close>.
\<close>

theorem staff_reads_anonymous_submitter:
  "run demo_init
     [InsertComplaint 1 50 0 (demo_complaint 10 1 True submitted None),
      UpdateComplaint 3 10 (demo_complaint 10 1 True submitted (Some 2))] =
     Inr (demo_db [demo_complaint 10 1 True submitted (Some 2)] [demo_entry 50 10 1]
            [demo_locker 10 1 ''not_revealed'']) \<and>
   select_identity_lockers
     (demo_db [demo_complaint 10 1 True submitted (Some 2)] [demo_entry 50 10 1]
            [demo_locker 10 1 ''not_revealed'']) 2 = [] \<and>
   read_complaint
     (demo_db [demo_complaint 10 1 True submitted (Some 2)] [demo_entry 50 10 1]
            [demo_locker 10 1 ''not_revealed'']) 2 10 =
     Inr (demo_complaint 10 1 True submitted (Some 2)) \<and>
   is_anonymous (demo_complaint 10 1 True submitted (Some 2)) \<and>
   student_id (demo_complaint 10 1 True submitted (Some 2)) = 1"
  by (simp add: demo_defs stmt_defs read_complaint_def select_complaints_def
        select_identity_lockers_def)

subsection \<open>Status changes\<close>

lemma find_distinct_c_id:
  "distinct (map c_id xs) \<Longrightarrow> c \<in> set xs \<Longrightarrow> find (\<lambda>x. c_id x = c_id c) xs = Some c"
  by (induction xs) (auto simp: image_iff)

lemma map_replace_member:
  "c \<in> set xs \<Longrightarrow> y \<in> set (map (\<lambda>x. if f x = f c then y else x) xs)"
  by (induction xs) auto

text \<open>
  C7 (as amended). In a reachable state an \<open>UPDATE\<close> of a complaint by a caller
  whom no update policy admits (neither its student, nor its assigned staff member, nor
  an admin) changes nothing, and a caller whom a policy admits can write any status
  over the present one: the update succeeds and the stored row carries the new status.
\<close>

theorem status_update_by_policy_only:
  assumes "reachable d" and "c \<in> set (complaints d)"
  shows "(\<not> complaints_update_using d uid c \<longrightarrow> update_complaint d uid (c_id c) NEW = Inr d) \<and>
         (complaints_update_using d uid c \<longrightarrow>
            update_complaint d uid (c_id c) (c\<lparr>status := s\<rparr>) =
              Inr (d\<lparr>complaints := map (\<lambda>x. if c_id x = c_id c then c\<lparr>status := s\<rparr> else x) (complaints d)\<rparr>) \<and>
            c\<lparr>status := s\<rparr> \<in>
              set (map (\<lambda>x. if c_id x = c_id c then c\<lparr>status := s\<rparr> else x) (complaints d)))"
proof -
  from assms(1) have ok: "complaints_ok d" by (rule reachable_complaints_ok)
  then have dist: "distinct (map c_id (complaints d))" by (simp add: complaints_ok_def)
  from find_distinct_c_id [OF dist assms(2)]
  have f: "find (\<lambda>x. c_id x = c_id c) (complaints d) = Some c" .
  from ok assms(2) have rc: "rating_check c" and fk: "complaint_fk d c"
    by (simp_all add: complaints_ok_def)
  have a: "update_complaint d uid (c_id c) NEW = Inr d" if "\<not> complaints_update_using d uid c"
    using that f by (simp add: update_complaint_def)
  have b: "update_complaint d uid (c_id c) (c\<lparr>status := s\<rparr>) =
              Inr (d\<lparr>complaints := map (\<lambda>x. if c_id x = c_id c then c\<lparr>status := s\<rparr> else x) (complaints d)\<rparr>)"
    if u: "complaints_update_using d uid c"
  proof -
    from u have sel: "complaints_select_policy d uid c"
      by (simp add: complaints_update_using_def complaints_select_policy_def
            students_can_update_own_def students_can_view_own_def staff_can_update_assigned_def
            staff_can_view_assigned_def admin_can_update_all_def admin_can_view_all_def)
    from u have chk: "complaints_update_check d uid (c\<lparr>status := s\<rparr>)"
      by (simp add: complaints_update_using_def complaints_update_check_def
            students_can_update_own_def staff_can_update_assigned_def admin_can_update_all_def)
    from rc have rc': "rating_check (c\<lparr>status := s\<rparr>)" by (simp add: rating_check_def)
    from fk have fk': "complaint_fk d (c\<lparr>status := s\<rparr>)" by (simp add: complaint_fk_def)
    show ?thesis
      using f u sel chk rc' fk' by (simp add: update_complaint_def)
  qed
  have m: "c\<lparr>status := s\<rparr> \<in>
              set (map (\<lambda>x. if c_id x = c_id c then c\<lparr>status := s\<rparr> else x) (complaints d))"
    by (rule map_replace_member [OF assms(2)])
  from a b m show ?thesis by blast
qed

text \<open>
  Complaint 10 was resolved by admin 3; its student writes it back to
  \<open>submitted\<close>.
\<close>

theorem resolved_is_not_terminal:
  "reachable (demo_db [demo_complaint 10 1 False resolved None] [demo_entry 50 10 1] []) \<and>
   step (demo_db [demo_complaint 10 1 False resolved None] [demo_entry 50 10 1] [])
        (UpdateComplaint 1 10 (demo_complaint 10 1 False submitted None)) =
     Inr (demo_db [demo_complaint 10 1 False submitted None] [demo_entry 50 10 1] [])"
proof -
  have r: "run demo_init
      [InsertComplaint 1 50 0 (demo_complaint 10 1 False submitted None),
       UpdateComplaint 3 10 (demo_complaint 10 1 False resolved None)] =
     Inr (demo_db [demo_complaint 10 1 False resolved None] [demo_entry 50 10 1] [])"
    by (simp add: demo_defs stmt_defs)
  have s: "step (demo_db [demo_complaint 10 1 False resolved None] [demo_entry 50 10 1] [])
        (UpdateComplaint 1 10 (demo_complaint 10 1 False submitted None)) =
     Inr (demo_db [demo_complaint 10 1 False submitted None] [demo_entry 50 10 1] [])"
    by (simp add: demo_defs stmt_defs)
  from run_reachable [OF reachable.init [OF initial_demo_init] r] s show ?thesis by simp
qed

text \<open>
  Staff member 2, not assigned to complaint 10, changes nothing; admin 3 resolves it.
\<close>

theorem status_update_by_policy_only_witness:
  "update_complaint (demo_db [demo_complaint 10 1 False submitted None] [demo_entry 50 10 1] []) 2 10
       (demo_complaint 10 1 False resolved None) =
     Inr (demo_db [demo_complaint 10 1 False submitted None] [demo_entry 50 10 1] []) \<and>
   update_complaint (demo_db [demo_complaint 10 1 False submitted None] [demo_entry 50 10 1] []) 3 10
       (demo_complaint 10 1 False resolved None) =
     Inr (demo_db [demo_complaint 10 1 False resolved None] [demo_entry 50 10 1] [])"
proof -
  let ?d = "demo_db [demo_complaint 10 1 False submitted None] [demo_entry 50 10 1] []"
  let ?c = "demo_complaint 10 1 False submitted None"
  have s: "step demo_init (InsertComplaint 1 50 0 ?c) = Inr ?d"
    by (simp add: demo_defs stmt_defs)
  have r: "reachable ?d"
    by (rule reachable.step [OF reachable.init [OF initial_demo_init] s])
  have m: "?c \<in> set (complaints ?d)" by (simp add: demo_defs)
  have n: "\<not> complaints_update_using ?d 2 ?c" by (simp add: demo_defs stmt_defs)
  have y: "complaints_update_using ?d 3 ?c" by (simp add: demo_defs stmt_defs)
  have i: "c_id ?c = 10" by (simp add: demo_defs)
  have e: "?c\<lparr>status := resolved\<rparr> = demo_complaint 10 1 False resolved None"
    by (simp add: demo_defs)
  have k: "?d\<lparr>complaints := map (\<lambda>x. if c_id x = 10 then demo_complaint 10 1 False resolved None else x)
              (complaints ?d)\<rparr> =
        demo_db [demo_complaint 10 1 False resolved None] [demo_entry 50 10 1] []"
    by (simp add: demo_defs)
  from status_update_by_policy_only [OF r m, of 2 "demo_complaint 10 1 False resolved None" resolved] n
  have a: "update_complaint ?d 2 10 (demo_complaint 10 1 False resolved None) = Inr ?d"
    unfolding i by blast
  from status_update_by_policy_only [OF r m, of 3 "demo_complaint 10 1 False resolved None" resolved] y
  have b: "update_complaint ?d 3 10 (demo_complaint 10 1 False resolved None) =
     Inr (demo_db [demo_complaint 10 1 False resolved None] [demo_entry 50 10 1] [])"
    unfolding i e k by blast
  from a b show ?thesis by simp
qed

subsection \<open>Role assignments\<close>

lemma distinct_key_once:
  "distinct (map g xs) \<Longrightarrow> y \<in> set xs \<Longrightarrow> length (filter (\<lambda>x. g x = g y) xs) = 1"
proof (induction xs)
  case Nil
  then show ?case by simp
next
  case (Cons a xs)
  show ?case
  proof (cases "g a = g y")
    case True
    with Cons.prems have "\<forall>x \<in> set xs. g x \<noteq> g y" by (auto simp: image_iff)
    then have "filter (\<lambda>x. g x = g y) xs = []" by (simp add: filter_empty_conv)
    with True show ?thesis by simp
  next
    case False
    with Cons show ?thesis by auto
  qed
qed

text \<open>
  C9 (as amended). In a reachable state an admin's insert of a role assignment whose
  (user, role) pair is already stored fails with a unique violation, and the pair is
  stored exactly once.
\<close>

theorem duplicate_role_rejected:
  assumes "reachable d" and "admins_manage_user_roles d uid" and "has_role d (user_id r) (role r)"
  shows "insert_user_role d uid r = Inl UniqueViolation \<and>
         length (filter (\<lambda>x. user_id x = user_id r \<and> role x = role r) (user_roles d)) = 1"
proof -
  from assms(3) obtain y where y: "y \<in> set (user_roles d)" "user_id y = user_id r" "role y = role r"
    by (auto simp: has_role_def)
  have "(user_id y, role y) \<in> (\<lambda>x. (user_id x, role x)) ` set (user_roles d)"
    using y(1) by (rule imageI)
  with y(2,3) have "(user_id r, role r) \<in> set (map (\<lambda>x. (user_id x, role x)) (user_roles d))"
    by simp
  with assms(2) have e: "insert_user_role d uid r = Inl UniqueViolation"
    by (simp add: insert_user_role_def)
  from assms(1) have "roles_ok d" by (rule reachable_roles_ok)
  then have "distinct (map (\<lambda>x. (user_id x, role x)) (user_roles d))" by (simp add: roles_ok_def)
  from distinct_key_once [OF this y(1)] y(2,3)
  have "length (filter (\<lambda>x. user_id x = user_id r \<and> role x = role r) (user_roles d)) = 1"
    by simp
  with e show ?thesis by simp
qed

text \<open>
  Admin 3 grants the staff role to profile 2, who holds it already.
\<close>

theorem duplicate_role_is_an_error:
  "has_role demo_init 2 staff \<and> has_role demo_init 3 admin \<and>
   insert_user_role demo_init 3 \<lparr>r_id = 102, user_id = 2, role = staff\<rparr> = Inl UniqueViolation"
  by (simp add: demo_defs stmt_defs)

theorem duplicate_role_rejected_witness:
  "insert_user_role demo_init 3 \<lparr>r_id = 102, user_id = 2, role = staff\<rparr> = Inl UniqueViolation \<and>
   length (filter (\<lambda>x. user_id x = 2 \<and> role x = staff) (user_roles demo_init)) = 1"
proof -
  have a: "admins_manage_user_roles demo_init 3" by (simp add: demo_defs stmt_defs)
  have h: "has_role demo_init (user_id \<lparr>r_id = 102, user_id = 2, role = staff\<rparr>)
             (role \<lparr>r_id = 102, user_id = 2, role = staff\<rparr>)"
    by (simp add: demo_defs stmt_defs)
  from duplicate_role_rejected [OF reachable.init [OF initial_demo_init] a h] show ?thesis by simp
qed

end
